theory Spec2Isabelle
  imports Main "HOL-Library.Word"
begin

section \<open>The PLY mesh reader (Mod/Mesh/App/Core/IO/ReaderPLY.cpp)\<close>

text \<open>
  A shallow embedding of \<^verbatim>\<open>MeshCore::ReaderPLY\<close>. Every member function of the source
  becomes a function on an explicit reader state and an explicit input stream. A C++
  exception leaving a function is the status \<open>Exception\<close>; \<^verbatim>\<open>return true\<close> and
  \<^verbatim>\<open>return false\<close> are \<open>Success\<close> and \<open>Failure\<close>.
\<close>

subsection \<open>Data model\<close>

text \<open>
  Modelled from the spec: the enumerations are declared in ReaderPLY.h and MeshIO.h, which
  are not among the sources. \<open>Number\<close> and \<open>Property\<close> are the NumericKind and the
  PropertyRole of section 3, with the enumerators the source uses. \<open>Format\<close> is the
  FormatMode, with one more value, \<open>unknown\<close>, for a reader that has not read a
  \<^verbatim>\<open>format\<close> line; \<open>Load\<close> treats everything that is not \<open>ascii\<close> as binary. \<open>Binding\<close>
  is the binding mode of the material; the source names \<^verbatim>\<open>PER_VERTEX\<close> only.
\<close>

datatype Format = unknown | ascii | binary_little_endian | binary_big_endian

datatype Number = int8 | uint8 | int16 | uint16 | int32 | uint32 | float32 | float64

datatype Property = coord_x | coord_y | coord_z | color_r | color_g | color_b | generic

datatype Binding = OVERALL | PER_VERTEX | PER_FACE

datatype status = Success | Failure | Exception

text \<open>
  32-bit floating point is not interpreted. The type of float values is a parameter \<open>'f\<close>,
  and the operations the reader applies to floats are the fields of \<open>float_ops\<close>:
  the zero of a value-initialised array, \<^verbatim>\<open>static_cast<float>\<close> of an integer, the float
  with a given 32-bit pattern, the narrowing of the double with a given 64-bit pattern,
  \<^verbatim>\<open>static_cast<float>(boost::lexical_cast<double>(s))\<close> (\<open>None\<close> when the cast throws),
  and float division.
\<close>

record 'f float_ops =
  f_zero :: "'f"
  f_of_int :: "int \<Rightarrow> 'f"
  f_of_bits32 :: "32 word \<Rightarrow> 'f"
  f_of_bits64 :: "64 word \<Rightarrow> 'f"
  f_of_text :: "string \<Rightarrow> 'f option"
  f_div :: "'f \<Rightarrow> 'f \<Rightarrow> 'f"

type_synonym 'f MeshPoint = "'f \<times> 'f \<times> 'f"

type_synonym MeshFacet = "nat \<times> nat \<times> nat"

type_synonym 'f PropertyArray = "Property \<Rightarrow> 'f"

record 'f Material =
  binding :: Binding
  diffuseColor :: "('f \<times> 'f \<times> 'f) list"

text \<open>
  The members of the reader. \<open>material\<close> is the nullable pointer \<^verbatim>\<open>_material\<close>.
  The mesh kernel, the mesh cleanup and the adjacency computation that \<^verbatim>\<open>CleanupMesh\<close>
  calls are collaborators outside the sources: \<open>handoffs\<close> records, for every call of
  \<^verbatim>\<open>CleanupMesh\<close>, the arrays handed to them, and nothing of what they do with the arrays.
\<close>

record 'f ReaderPLY =
  format :: Format
  v_count :: nat
  f_count :: nat
  vertex_props :: "(Property \<times> Number) list"
  face_props :: "Number list"
  meshPoints :: "'f MeshPoint list"
  meshFacets :: "MeshFacet list"
  material :: "'f Material option"
  handoffs :: "('f MeshPoint list \<times> MeshFacet list) list"

subsection \<open>Input streams\<close>

text \<open>
  A \<^verbatim>\<open>std::istream\<close> is the characters not yet read and the fail state. Once the
  stream has failed every extraction is a no-op.
\<close>

record istream =
  chars :: string
  failed :: bool

text \<open>
  The binary stream \<^verbatim>\<open>Base::InputStream\<close> (Base/Stream.h) is a parameter of the binary
  decoder: \<open>rd_u8\<close> and \<open>rd_u32\<close> are \<^verbatim>\<open>is >> v\<close> for an 8-bit and a 32-bit unsigned
  variable that lives across reads (they get the variable's old value and return the new
  one), \<open>rd_num k\<close> is \<^verbatim>\<open>is >> v\<close> for a fresh local of kind \<open>k\<close>, converted to float.
\<close>

record 'f InputStream =
  rd_u8 :: "8 word \<Rightarrow> istream \<Rightarrow> 8 word \<times> istream"
  rd_u32 :: "32 word \<Rightarrow> istream \<Rightarrow> 32 word \<times> istream"
  rd_num :: "Number \<Rightarrow> istream \<Rightarrow> 'f \<times> istream"

subsection \<open>Binary face records: \<^verbatim>\<open>ReadFaces(Base::InputStream&)\<close>\<close>

text \<open>The inner loop \<^verbatim>\<open>for (unsigned char j = 0; j < n; j++) is >> v;\<close>.\<close>

primrec read_values :: "'f InputStream \<Rightarrow> Number \<Rightarrow> nat \<Rightarrow> istream \<Rightarrow> istream" where
  "read_values R k 0 s = s"
| "read_values R k (Suc j) s = read_values R k j (snd (rd_num R k s))"

text \<open>
  One pass of the \<^verbatim>\<open>switch (it)\<close> over a face property: the state is the variable
  \<^verbatim>\<open>n\<close> and the stream. The two float cases read a count into \<^verbatim>\<open>n\<close> first.
\<close>

fun face_prop :: "'f InputStream \<Rightarrow> Number \<Rightarrow> 8 word \<times> istream \<Rightarrow> 8 word \<times> istream" where
  "face_prop R int8 (n, s) = (n, snd (rd_num R int8 s))"
| "face_prop R uint8 (n, s) = (n, snd (rd_num R uint8 s))"
| "face_prop R int16 (n, s) = (n, snd (rd_num R int16 s))"
| "face_prop R uint16 (n, s) = (n, snd (rd_num R uint16 s))"
| "face_prop R int32 (n, s) = (n, snd (rd_num R int32 s))"
| "face_prop R uint32 (n, s) = (n, snd (rd_num R uint32 s))"
| "face_prop R float32 (n, s) =
     (let (n', s') = rd_u8 R n s in (n', read_values R float32 (unat n') s'))"
| "face_prop R float64 (n, s) =
     (let (n', s') = rd_u8 R n s in (n', read_values R float64 (unat n') s'))"

text \<open>The variables \<^verbatim>\<open>n, f1, f2, f3\<close> are declared outside the loop and keep their values.\<close>

record face_vars =
  var_n :: "8 word"
  var_f1 :: "32 word"
  var_f2 :: "32 word"
  var_f3 :: "32 word"

text \<open>One iteration of the loop over \<^verbatim>\<open>f_count\<close>.\<close>

definition face_record ::
  "'f InputStream \<Rightarrow> face_vars \<times> istream \<times> 'f ReaderPLY \<Rightarrow> face_vars \<times> istream \<times> 'f ReaderPLY"
  where
  "face_record R = (\<lambda>(v, s, r).
     let (n1, s1) = rd_u8 R (var_n v) s in
     if n1 = 3 then
       let (a, s2) = rd_u32 R (var_f1 v) s1;
           (b, s3) = rd_u32 R (var_f2 v) s2;
           (c, s4) = rd_u32 R (var_f3 v) s3;
           r' = (if unat a < v_count r \<and> unat b < v_count r \<and> unat c < v_count r
                 then r\<lparr>meshFacets := meshFacets r @ [(unat a, unat b, unat c)]\<rparr>
                 else r);
           (n2, s5) = foldl (\<lambda>acc k. face_prop R k acc) (n1, s4) (face_props r)
       in (\<lparr>var_n = n2, var_f1 = a, var_f2 = b, var_f3 = c\<rparr>, s5, r')
     else (v\<lparr>var_n := n1\<rparr>, s1, r))"

primrec face_loop ::
  "'f InputStream \<Rightarrow> nat \<Rightarrow> face_vars \<times> istream \<times> 'f ReaderPLY \<Rightarrow> face_vars \<times> istream \<times> 'f ReaderPLY"
  where
  "face_loop R 0 st = st"
| "face_loop R (Suc i) st = face_loop R i (face_record R st)"

text \<open>
  The \<^verbatim>\<open>default: return false\<close> of the switch is not reachable: \<open>face_props\<close> holds
  enumerators of \<open>Number\<close> only.
\<close>

definition ReadFaces_binary ::
  "'f InputStream \<Rightarrow> istream \<Rightarrow> 'f ReaderPLY \<Rightarrow> status \<times> istream \<times> 'f ReaderPLY" where
  "ReadFaces_binary R s r =
     (let (v, s', r') = face_loop R (f_count r) (\<lparr>var_n = 0, var_f1 = 0, var_f2 = 0, var_f3 = 0\<rparr>, s, r)
      in (Success, s', r'))"

subsection \<open>Character classes and primitive stream operations\<close>

text \<open>\<^verbatim>\<open>std::isspace\<close> in the C locale: space and the control characters 9 to 13.\<close>

definition is_space :: "char \<Rightarrow> bool" where
  "is_space c = (c = CHR '' '' \<or> (9 \<le> (of_char c :: nat) \<and> (of_char c :: nat) \<le> 13))"

definition is_digit :: "char \<Rightarrow> bool" where
  "is_digit c = (48 \<le> (of_char c :: nat) \<and> (of_char c :: nat) \<le> 57)"

text \<open>The word characters of \<^verbatim>\<open>\b\<close>: letters, digits and the underscore.\<close>

definition is_word :: "char \<Rightarrow> bool" where
  "is_word c = (is_digit c \<or> c = CHR ''_''
     \<or> (65 \<le> (of_char c :: nat) \<and> (of_char c :: nat) \<le> 90)
     \<or> (97 \<le> (of_char c :: nat) \<and> (of_char c :: nat) \<le> 122))"

text \<open>The value of a string of decimal digits.\<close>

definition dec :: "string \<Rightarrow> nat" where
  "dec ds = foldl (\<lambda>a c. 10 * a + ((of_char c :: nat) - 48)) 0 ds"

text \<open>
  \<^verbatim>\<open>istream::read(buf, k)\<close>: the characters stored in the buffer and the stream
  afterwards. A stream holding fewer than \<open>k\<close> characters gives what it has and fails.
\<close>

definition read_raw :: "nat \<Rightarrow> istream \<Rightarrow> string \<times> istream" where
  "read_raw k s =
     (if failed s then ([], s)
      else if k \<le> length (chars s) then (take k (chars s), s\<lparr>chars := drop k (chars s)\<rparr>)
      else (chars s, s\<lparr>chars := [], failed := True\<rparr>))"

text \<open>\<^verbatim>\<open>istream::ignore(1)\<close>: drops one character when there is one; it never fails.\<close>

definition ignore1 :: "istream \<Rightarrow> istream" where
  "ignore1 s = (if failed s then s else s\<lparr>chars := drop 1 (chars s)\<rparr>)"

text \<open>
  \<^verbatim>\<open>std::getline(input, line)\<close>: \<open>None\<close> when the call fails (nothing left to read),
  else the line without its newline.
\<close>

definition getline :: "istream \<Rightarrow> string option \<times> istream" where
  "getline s =
     (if failed s then (None, s)
      else if chars s = [] then (None, s\<lparr>failed := True\<rparr>)
      else let l = takeWhile (\<lambda>c. c \<noteq> CHR 0x0A) (chars s)
           in (Some l, s\<lparr>chars := drop (Suc (length l)) (chars s)\<rparr>))"

text \<open>
  Formatted extraction from the line stream of \<open>ReadHeader\<close>, which has \<^verbatim>\<open>skipws\<close>
  unset: \<^verbatim>\<open>str >> c\<close> for a char, \<^verbatim>\<open>str >> std::ws\<close>, \<^verbatim>\<open>str >> s\<close> for a string and
  \<^verbatim>\<open>str >> count\<close> for a \<^verbatim>\<open>std::size_t\<close>. The first argument is the variable's old value.
\<close>

definition get_char :: "char \<Rightarrow> istream \<Rightarrow> char \<times> istream" where
  "get_char old s =
     (if failed s then (old, s)
      else case chars s of
             [] \<Rightarrow> (old, s\<lparr>failed := True\<rparr>)
           | c # cs \<Rightarrow> (c, s\<lparr>chars := cs\<rparr>))"

definition skip_ws :: "istream \<Rightarrow> istream" where
  "skip_ws s = (if failed s then s else s\<lparr>chars := dropWhile is_space (chars s)\<rparr>)"

definition get_string :: "string \<Rightarrow> istream \<Rightarrow> string \<times> istream" where
  "get_string old s =
     (if failed s then (old, s)
      else let tok = takeWhile (\<lambda>c. \<not> is_space c) (chars s)
           in if tok = [] then ([], s\<lparr>failed := True\<rparr>)
              else (tok, s\<lparr>chars := dropWhile (\<lambda>c. \<not> is_space c) (chars s)\<rparr>))"

text \<open>
  An unsigned 64-bit number is read as \<^verbatim>\<open>strtoull\<close> reads it: an optional sign, then
  digits; no digit stores 0 and fails, a value that does not fit stores the largest value
  and fails, a minus sign negates modulo \<open>2^64\<close>.
\<close>

definition get_size_t :: "nat \<Rightarrow> istream \<Rightarrow> nat \<times> istream" where
  "get_size_t old s =
     (if failed s then (old, s)
      else let neg = (case chars s of c # _ \<Rightarrow> c = CHR ''-'' | [] \<Rightarrow> False);
               sgn = (case chars s of c # _ \<Rightarrow> c = CHR ''-'' \<or> c = CHR ''+'' | [] \<Rightarrow> False);
               body = (if sgn then tl (chars s) else chars s);
               ds = takeWhile is_digit body;
               s' = s\<lparr>chars := dropWhile is_digit body\<rparr>
           in if ds = [] then (0, s'\<lparr>failed := True\<rparr>)
              else if 2 ^ 64 \<le> dec ds then (2 ^ 64 - 1, s'\<lparr>failed := True\<rparr>)
              else if neg then ((2 ^ 64 - dec ds) mod 2 ^ 64, s')
              else (dec ds, s'))"

text \<open>
  \<^verbatim>\<open>boost::lexical_cast<int>\<close> of a matched token: an optional sign and digits;
  \<open>None\<close> is the \<^verbatim>\<open>bad_lexical_cast\<close> thrown when the text is not a number or the number
  does not fit a 32-bit \<^verbatim>\<open>int\<close>.
\<close>

definition lexical_cast_int :: "string \<Rightarrow> int option" where
  "lexical_cast_int t =
     (let neg = (case t of c # _ \<Rightarrow> c = CHR ''-'' | [] \<Rightarrow> False);
          sgn = (case t of c # _ \<Rightarrow> c = CHR ''-'' \<or> c = CHR ''+'' | [] \<Rightarrow> False);
          ds = (if sgn then tl t else t);
          v = (if neg then - int (dec ds) else int (dec ds))
      in if ds = [] \<or> \<not> list_all is_digit ds then None
         else if - (2 ^ 31) \<le> v \<and> v < 2 ^ 31 then Some v
         else None)"

subsection \<open>A byte stream with a byte order\<close>

text \<open>
  Modelled from the spec: \<^verbatim>\<open>Base::InputStream\<close> (Base/Stream.h) is not among the sources.
  Section 4.4 has it as a byte cursor with a fixed endianness that reads fixed-width
  values. A read of a \<open>w\<close>-byte variable takes \<open>w\<close> bytes with \<open>read_raw\<close>, stores them over
  the variable's first bytes (fewer when the stream ends), and swaps the variable's bytes
  when the byte order is big-endian; the host is little-endian.
\<close>

definition word_bytes :: "nat \<Rightarrow> 'a::len word \<Rightarrow> string" where
  "word_bytes k w = map (\<lambda>i. char_of (unat w div 256 ^ i)) [0..<k]"

definition le_word :: "string \<Rightarrow> 'a::len word" where
  "le_word bs = of_nat (foldr (\<lambda>c a. (of_char c :: nat) + 256 * a) bs 0)"

definition get_word :: "bool \<Rightarrow> 'a::len word \<Rightarrow> istream \<Rightarrow> 'a word \<times> istream" where
  "get_word swap old s =
     (let k = LENGTH('a) div 8;
          (bs, s') = read_raw k s;
          mem = bs @ drop (length bs) (word_bytes k old)
      in (le_word (if swap then rev mem else mem), s'))"

fun get_num :: "'f float_ops \<Rightarrow> bool \<Rightarrow> Number \<Rightarrow> istream \<Rightarrow> 'f \<times> istream" where
  "get_num F swap int8 s = (let (v, s') = get_word swap (0 :: 8 word) s in (f_of_int F (sint v), s'))"
| "get_num F swap uint8 s = (let (v, s') = get_word swap (0 :: 8 word) s in (f_of_int F (uint v), s'))"
| "get_num F swap int16 s = (let (v, s') = get_word swap (0 :: 16 word) s in (f_of_int F (sint v), s'))"
| "get_num F swap uint16 s = (let (v, s') = get_word swap (0 :: 16 word) s in (f_of_int F (uint v), s'))"
| "get_num F swap int32 s = (let (v, s') = get_word swap (0 :: 32 word) s in (f_of_int F (sint v), s'))"
| "get_num F swap uint32 s = (let (v, s') = get_word swap (0 :: 32 word) s in (f_of_int F (uint v), s'))"
| "get_num F swap float32 s = (let (v, s') = get_word swap (0 :: 32 word) s in (f_of_bits32 F v, s'))"
| "get_num F swap float64 s = (let (v, s') = get_word swap (0 :: 64 word) s in (f_of_bits64 F v, s'))"

definition Base_InputStream :: "'f float_ops \<Rightarrow> bool \<Rightarrow> 'f InputStream" where
  "Base_InputStream F swap =
     \<lparr>rd_u8 = get_word swap, rd_u32 = get_word swap, rd_num = get_num F swap\<rparr>"

subsection \<open>The header\<close>

definition CheckHeader :: "istream \<Rightarrow> bool \<times> istream" where
  "CheckHeader input =
     (if failed input then (False, input)
      else let (ply, i1) = read_raw 3 input;
               i2 = ignore1 i1
           in if failed i2 then (False, i2)
              else (ply = ''ply'', i2))"

definition ReadFormat :: "istream \<Rightarrow> 'f ReaderPLY \<Rightarrow> bool \<times> 'f ReaderPLY" where
  "ReadFormat str r =
     (let (space_format_string, s1) = get_char (CHR 0x00) str;
          s2 = skip_ws s1;
          (format_string, s3) = get_string [] s2;
          (space_format_version, s4) = get_char (CHR 0x00) s3;
          s5 = skip_ws s4;
          (version, s6) = get_string [] s5
      in if \<not> is_space space_format_string \<or> \<not> is_space space_format_version then (False, r)
         else if format_string = ''ascii'' then (version = ''1.0'', r\<lparr>format := ascii\<rparr>)
         else if format_string = ''binary_big_endian''
           then (version = ''1.0'', r\<lparr>format := binary_big_endian\<rparr>)
         else if format_string = ''binary_little_endian''
           then (version = ''1.0'', r\<lparr>format := binary_little_endian\<rparr>)
         else (False, r))"

text \<open>
  Modelled from the spec: the point and facet containers are vectors whose element types
  are declared outside the sources, and an element line pre-sizes them. \<^verbatim>\<open>reserve(count)\<close>
  throws (\<^verbatim>\<open>std::length_error\<close> above the vector's \<^verbatim>\<open>max_size\<close>) when the count is more
  than the vector can hold; \<open>max_points\<close> and \<open>max_facets\<close> are the largest counts the two
  vectors accept. A \<^verbatim>\<open>reserve\<close> that does not throw changes a capacity only.
\<close>

record limits =
  max_points :: nat
  max_facets :: nat

text \<open>
  The second component of the result is the caller's \<^verbatim>\<open>element\<close>. The exception of
  \<^verbatim>\<open>reserve\<close> leaves \<open>ReadElement\<close> after the element and the count have been assigned.
\<close>

definition ReadElement ::
  "limits \<Rightarrow> istream \<Rightarrow> string \<Rightarrow> 'f ReaderPLY \<Rightarrow> status \<times> string \<times> 'f ReaderPLY" where
  "ReadElement L str element r =
     (let (space_element_name, s1) = get_char (CHR 0x00) str;
          s2 = skip_ws s1;
          (name, s3) = get_string [] s2;
          (space_name_count, s4) = get_char (CHR 0x00) s3;
          s5 = skip_ws s4;
          (count, s6) = get_size_t 0 s5
      in if \<not> is_space space_element_name \<or> \<not> is_space space_name_count
         then (Failure, element, r)
         else if name = ''vertex''
           then (if max_points L < count then Exception else Success, name, r\<lparr>v_count := count\<rparr>)
         else if name = ''face''
           then (if max_facets L < count then Exception else Success, name, r\<lparr>f_count := count\<rparr>)
         else (Success, [], r))"

definition propertyOfName :: "string \<Rightarrow> Property" where
  "propertyOfName name =
     (if name = ''x'' then coord_x
      else if name = ''y'' then coord_y
      else if name = ''z'' then coord_z
      else if name = ''red'' \<or> name = ''diffuse_red'' then color_r
      else if name = ''green'' \<or> name = ''diffuse_green'' then color_g
      else if name = ''blue'' \<or> name = ''diffuse_blue'' then color_b
      else generic)"

text \<open>
  The chain of comparisons on the type token, which \<open>ReadVertexProperty\<close> and
  \<open>ReadFaceProperty\<close> both contain; \<open>None\<close> is their \<^verbatim>\<open>return false\<close>.
\<close>

definition number_of_type :: "string \<Rightarrow> Number option" where
  "number_of_type type =
     (if type = ''char'' \<or> type = ''int8'' then Some int8
      else if type = ''uchar'' \<or> type = ''uint8'' then Some uint8
      else if type = ''short'' \<or> type = ''int16'' then Some int16
      else if type = ''ushort'' \<or> type = ''uint16'' then Some uint16
      else if type = ''int'' \<or> type = ''int32'' then Some int32
      else if type = ''uint'' \<or> type = ''uint32'' then Some uint32
      else if type = ''float'' \<or> type = ''float32'' then Some float32
      else if type = ''double'' \<or> type = ''float64'' then Some float64
      else None)"

definition ReadVertexProperty :: "istream \<Rightarrow> 'f ReaderPLY \<Rightarrow> bool \<times> 'f ReaderPLY" where
  "ReadVertexProperty str r =
     (let (space1, s1) = get_char (CHR 0x00) str;
          s2 = skip_ws s1;
          (type, s3) = get_string [] s2;
          (space2, s4) = get_char space1 s3;
          s5 = skip_ws s4;
          (name, s6) = get_string [] s5
      in case number_of_type type of
           None \<Rightarrow> (False, r)
         | Some number \<Rightarrow>
             (True, r\<lparr>vertex_props := vertex_props r @ [(propertyOfName name, number)]\<rparr>))"

definition ReadFaceProperty :: "istream \<Rightarrow> 'f ReaderPLY \<Rightarrow> bool \<times> 'f ReaderPLY" where
  "ReadFaceProperty str r =
     (let (space, s1) = get_char (CHR 0x00) str;
          s2 = skip_ws s1;
          (list, s3) = get_string [] s2;
          s4 = skip_ws s3;
          (type, name) =
            (if list = ''list''
             then let (uchr, s5) = get_string [] s4;
                      s6 = skip_ws s5;
                      (type, s7) = get_string [] s6;
                      s8 = skip_ws s7;
                      (name, s9) = get_string [] s8
                  in (type, name)
             else (list, fst (get_string [] s4)))
      in if name \<noteq> ''vertex_indices'' \<and> name \<noteq> ''vertex_index''
         then (case number_of_type type of
                 None \<Rightarrow> (False, r)
               | Some number \<Rightarrow> (True, r\<lparr>face_props := face_props r @ [number]\<rparr>))
         else (True, r))"

definition ReadProperty :: "istream \<Rightarrow> string \<Rightarrow> 'f ReaderPLY \<Rightarrow> bool \<times> 'f ReaderPLY" where
  "ReadProperty str element r =
     (if element = ''vertex'' then ReadVertexProperty str r
      else if element = ''face'' then ReadFaceProperty str r
      else (True, r))"

text \<open>
  The body of the loop of \<open>ReadHeader\<close> for one line: \<open>Abort\<close> is \<^verbatim>\<open>return false\<close>,
  \<open>Stop\<close> the \<^verbatim>\<open>break\<close> at \<^verbatim>\<open>end_header\<close>, \<open>Continue\<close> the next iteration, \<open>Throw\<close> an
  exception that leaves the loop and \<open>ReadHeader\<close>.
\<close>

datatype line_result = Continue | Stop | Abort | Throw

definition header_line ::
  "limits \<Rightarrow> string \<Rightarrow> string \<Rightarrow> 'f ReaderPLY \<Rightarrow> line_result \<times> string \<times> 'f ReaderPLY" where
  "header_line L line element r =
     (let str = \<lparr>chars = dropWhile is_space line, failed = False\<rparr>
      in if chars str = [] then (Continue, element, r)
         else let (kw, s1) = get_string [] str
              in if kw = ''format''
                 then (case ReadFormat s1 r of
                         (False, r') \<Rightarrow> (Abort, element, r')
                       | (True, r') \<Rightarrow> (Continue, element, r'))
                 else if kw = ''element''
                 then (case ReadElement L s1 element r of
                         (Failure, e', r') \<Rightarrow> (Abort, e', r')
                       | (Success, e', r') \<Rightarrow> (Continue, e', r')
                       | (Exception, e', r') \<Rightarrow> (Throw, e', r'))
                 else if kw = ''property''
                 then (case ReadProperty s1 element r of
                         (False, r') \<Rightarrow> (Abort, element, r')
                       | (True, r') \<Rightarrow> (Continue, element, r'))
                 else if kw = ''end_header'' then (Stop, element, r)
                 else (Continue, element, r))"

function ReadHeader ::
  "limits \<Rightarrow> istream \<Rightarrow> string \<Rightarrow> 'f ReaderPLY \<Rightarrow> status \<times> istream \<times> 'f ReaderPLY" where
  "ReadHeader L input element r =
     (case getline input of
        (None, input') \<Rightarrow> (Success, input', r)
      | (Some line, input') \<Rightarrow>
          (case header_line L line element r of
             (Abort, e', r') \<Rightarrow> (Failure, input', r')
           | (Stop, e', r') \<Rightarrow> (Success, input', r')
           | (Throw, e', r') \<Rightarrow> (Exception, input', r')
           | (Continue, e', r') \<Rightarrow> ReadHeader L input' e' r'))"
  by pat_completeness auto
termination
  apply (relation "measure (\<lambda>(L, input, element, r). length (chars input))")
   apply simp
  apply (auto simp: getline_def Let_def split: if_splits)
  done

subsection \<open>Schema validation\<close>

text \<open>
  Modelled from the spec: \<^verbatim>\<open>PropertyComp\<close> is declared in ReaderPLY.h, which is not among
  the sources; the validator "counts entries per role", so the comparison is on the role of
  the entry. \<open>count_if\<close> is \<^verbatim>\<open>std::count_if\<close>.
\<close>

definition PropertyComp :: "Property \<times> Number \<Rightarrow> Property \<Rightarrow> bool" where
  "PropertyComp x y = (fst x = y)"

definition count_if :: "('a \<Rightarrow> bool) \<Rightarrow> 'a list \<Rightarrow> nat" where
  "count_if P xs = length (filter P xs)"

definition VerifyVertexProperty :: "'f ReaderPLY \<Rightarrow> bool" where
  "VerifyVertexProperty r =
     (let num_x = count_if (\<lambda>p. PropertyComp p coord_x) (vertex_props r);
          num_y = count_if (\<lambda>p. PropertyComp p coord_y) (vertex_props r);
          num_z = count_if (\<lambda>p. PropertyComp p coord_z) (vertex_props r)
      in num_x = 1 \<and> num_y = 1 \<and> num_z = 1)"

text \<open>
  The \<^verbatim>\<open>reserve\<close> of the colors changes a capacity only; its count is \<open>v_count\<close>, which
  has passed the \<^verbatim>\<open>reserve\<close> of the points when an element line set it.
\<close>

definition VerifyColorProperty :: "'f ReaderPLY \<Rightarrow> bool \<times> 'f ReaderPLY" where
  "VerifyColorProperty r =
     (let num_r = count_if (\<lambda>p. PropertyComp p color_r) (vertex_props r);
          num_g = count_if (\<lambda>p. PropertyComp p color_g) (vertex_props r);
          num_b = count_if (\<lambda>p. PropertyComp p color_b) (vertex_props r);
          rgb_colors = num_r + num_g + num_b
      in if rgb_colors \<noteq> 0 \<and> rgb_colors \<noteq> 3 then (False, r)
         else if rgb_colors = 3
           then (case material r of
                   Some m \<Rightarrow> (True, r\<lparr>material := Some (m\<lparr>binding := PER_VERTEX\<rparr>)\<rparr>)
                 | None \<Rightarrow> (True, r))
         else (True, r))"

subsection \<open>Record assembly and handoff\<close>

definition addVertexProperty :: "'f float_ops \<Rightarrow> 'f PropertyArray \<Rightarrow> 'f ReaderPLY \<Rightarrow> 'f ReaderPLY" where
  "addVertexProperty F prop r =
     (let r1 = r\<lparr>meshPoints := meshPoints r @ [(prop coord_x, prop coord_y, prop coord_z)]\<rparr>
      in case material r of
           None \<Rightarrow> r1
         | Some m \<Rightarrow>
             if binding m = PER_VERTEX
             then r1\<lparr>material := Some (m\<lparr>diffuseColor := diffuseColor m @
                    [(f_div F (prop color_r) (f_of_int F 255),
                      f_div F (prop color_g) (f_of_int F 255),
                      f_div F (prop color_b) (f_of_int F 255))]\<rparr>)\<rparr>
             else r1)"

definition CleanupMesh :: "'f ReaderPLY \<Rightarrow> 'f ReaderPLY" where
  "CleanupMesh r = r\<lparr>handoffs := handoffs r @ [(meshPoints r, meshFacets r)]\<rparr>"

subsection \<open>The lexical patterns of the ASCII body\<close>

text \<open>
  \<^verbatim>\<open>boost::regex_search\<close> finds the leftmost match, each repetition taking as much as it
  can. The searches below return the text of the first group and the length of the whole
  match, which is all the reader uses.

  \<open>rx_u\<close> is \<^verbatim>\<open>\b([0-9]+)\s*\<close>: the first digit that no word character precedes starts
  the match. The flag says whether the previous character is a word character.
\<close>

fun search_u :: "bool \<Rightarrow> string \<Rightarrow> (string \<times> nat) option" where
  "search_u pw [] = None"
| "search_u pw (c # cs) =
     (if is_digit c \<and> \<not> pw
      then let d = takeWhile is_digit (c # cs);
               w = takeWhile is_space (dropWhile is_digit (c # cs))
           in Some (d, length d + length w)
      else search_u (is_word c) cs)"

definition rx_u :: "string \<Rightarrow> (string \<times> nat) option" where
  "rx_u line = search_u False line"

text \<open>
  \<open>rx_s\<close> is \<^verbatim>\<open>\b([-+]?[0-9]+)\s*\<close>: a sign belongs to the match only when a word
  character precedes it, since \<^verbatim>\<open>\b\<close> has to hold in front of the sign.
\<close>

fun search_s :: "bool \<Rightarrow> string \<Rightarrow> (string \<times> nat) option" where
  "search_s pw [] = None"
| "search_s pw (c # cs) =
     (if (c = CHR ''-'' \<or> c = CHR ''+'') \<and> pw \<and> takeWhile is_digit cs \<noteq> []
      then let d = takeWhile is_digit cs;
               w = takeWhile is_space (dropWhile is_digit cs)
           in Some (c # d, Suc (length d + length w))
      else if is_digit c \<and> \<not> pw
      then let d = takeWhile is_digit (c # cs);
               w = takeWhile is_space (dropWhile is_digit (c # cs))
           in Some (d, length d + length w)
      else search_s (is_word c) cs)"

definition rx_s :: "string \<Rightarrow> (string \<times> nat) option" where
  "rx_s line = search_s False line"

text \<open>
  \<open>rx_d\<close> is \<^verbatim>\<open>(([-+]?[0-9]*)\.?([0-9]+([eE][-+]?[0-9]+)?))\s*\<close>. \<open>exponent\<close> is the text
  the optional exponent takes at the front of its argument, \<open>match_d\<close> the text of the
  first group when the pattern matches at the front.
\<close>

definition sign_of :: "string \<Rightarrow> string" where
  "sign_of cs = (case cs of c # _ \<Rightarrow> if c = CHR ''-'' \<or> c = CHR ''+'' then [c] else [] | [] \<Rightarrow> [])"

definition exponent :: "string \<Rightarrow> string" where
  "exponent cs =
     (case cs of
        [] \<Rightarrow> []
      | e # r \<Rightarrow>
          if e = CHR ''e'' \<or> e = CHR ''E''
          then let sg = sign_of r;
                   ds = takeWhile is_digit (drop (length sg) r)
               in if ds = [] then [] else e # sg @ ds
          else [])"

definition match_d :: "string \<Rightarrow> string option" where
  "match_d cs =
     (let sg = sign_of cs;
          r0 = drop (length sg) cs;
          ds = takeWhile is_digit r0;
          r1 = dropWhile is_digit r0;
          ds2 = takeWhile is_digit (tl r1)
      in if r1 \<noteq> [] \<and> hd r1 = CHR ''.'' \<and> ds2 \<noteq> []
         then Some (sg @ ds @ CHR ''.'' # ds2 @ exponent (dropWhile is_digit (tl r1)))
         else if ds \<noteq> [] then Some (sg @ ds @ exponent r1)
         else None)"

fun search_d :: "string \<Rightarrow> (string \<times> nat) option" where
  "search_d [] = None"
| "search_d (c # cs) =
     (case match_d (c # cs) of
        Some g \<Rightarrow> Some (g, length g + length (takeWhile is_space (drop (length g) (c # cs))))
      | None \<Rightarrow> search_d cs)"

definition rx_d :: "string \<Rightarrow> (string \<times> nat) option" where
  "rx_d line = search_d line"

text \<open>
  \<open>rx_f\<close> is \<^verbatim>\<open>^\s*3\s+([0-9]+)\s+([0-9]+)\s+([0-9]+)\s*\<close>; the result is the three
  groups. \<open>match_f\<close> matches at the front of its argument. Boost's \<^verbatim>\<open>^\<close> holds at the
  start of the text and after a line separator inside it, so the search also tries the
  positions after a carriage return or a form feed (a line of \<open>getline\<close> has no newline).
\<close>

definition match_f :: "string \<Rightarrow> (string \<times> string \<times> string) option" where
  "match_f cs =
     (case dropWhile is_space cs of
        [] \<Rightarrow> None
      | c # r1 \<Rightarrow>
          let w1 = takeWhile is_space r1; r2 = dropWhile is_space r1;
              d1 = takeWhile is_digit r2; r3 = dropWhile is_digit r2;
              w2 = takeWhile is_space r3; r4 = dropWhile is_space r3;
              d2 = takeWhile is_digit r4; r5 = dropWhile is_digit r4;
              w3 = takeWhile is_space r5; r6 = dropWhile is_space r5;
              d3 = takeWhile is_digit r6
          in if c = CHR ''3'' \<and> w1 \<noteq> [] \<and> d1 \<noteq> [] \<and> w2 \<noteq> [] \<and> d2 \<noteq> [] \<and> w3 \<noteq> [] \<and> d3 \<noteq> []
             then Some (d1, d2, d3) else None)"

definition is_separator :: "char \<Rightarrow> bool" where
  "is_separator c = (c = CHR 0x0A \<or> c = CHR 0x0D \<or> c = CHR 0x0C)"

fun search_f :: "string \<Rightarrow> (string \<times> string \<times> string) option" where
  "search_f [] = None"
| "search_f (c # cs) =
     (if is_separator c \<and> cs \<noteq> []
      then (case match_f cs of Some g \<Rightarrow> Some g | None \<Rightarrow> search_f cs)
      else search_f cs)"

definition rx_f :: "string \<Rightarrow> (string \<times> string \<times> string) option" where
  "rx_f line = (case match_f line of Some g \<Rightarrow> Some g | None \<Rightarrow> search_f line)"

subsection \<open>The ASCII body\<close>

text \<open>
  The loop over \<open>vertex_props\<close> for one line of \<open>ReadVertexes(std::istream&)\<close>:
  \<open>Failure\<close> is the \<^verbatim>\<open>return false\<close> of a pattern that does not match, \<open>Exception\<close> a
  \<^verbatim>\<open>lexical_cast\<close> that throws, \<open>Success\<close> comes with the filled value buffer.
\<close>

fun vertex_line ::
  "'f float_ops \<Rightarrow> (Property \<times> Number) list \<Rightarrow> string \<Rightarrow> 'f PropertyArray \<Rightarrow> status \<times> 'f PropertyArray"
  where
  "vertex_line F [] line prop_values = (Success, prop_values)"
| "vertex_line F ((p, k) # ps) line prop_values =
     (if k = int8 \<or> k = int16 \<or> k = int32 then
        (case rx_s line of
           None \<Rightarrow> (Failure, prop_values)
         | Some (g, len) \<Rightarrow>
             (case lexical_cast_int g of
                None \<Rightarrow> (Exception, prop_values)
              | Some v \<Rightarrow> vertex_line F ps (drop len line) (prop_values(p := f_of_int F v))))
      else if k = uint8 \<or> k = uint16 \<or> k = uint32 then
        (case rx_u line of
           None \<Rightarrow> (Failure, prop_values)
         | Some (g, len) \<Rightarrow>
             (case lexical_cast_int g of
                None \<Rightarrow> (Exception, prop_values)
              | Some v \<Rightarrow> vertex_line F ps (drop len line) (prop_values(p := f_of_int F v))))
      else
        (case rx_d line of
           None \<Rightarrow> (Failure, prop_values)
         | Some (g, len) \<Rightarrow>
             (case f_of_text F g of
                None \<Rightarrow> (Exception, prop_values)
              | Some v \<Rightarrow> vertex_line F ps (drop len line) (prop_values(p := v)))))"

text \<open>
  The loop \<^verbatim>\<open>for (i = 0; i < v_count && std::getline(input, line); i++)\<close>; the second
  argument is the number of iterations still allowed, \<open>v_count - i\<close>.
\<close>

primrec vertexes_ascii ::
  "'f float_ops \<Rightarrow> nat \<Rightarrow> istream \<Rightarrow> 'f ReaderPLY \<Rightarrow> status \<times> istream \<times> 'f ReaderPLY" where
  "vertexes_ascii F 0 input r = (Success, input, r)"
| "vertexes_ascii F (Suc k) input r =
     (case getline input of
        (None, input') \<Rightarrow> (Success, input', r)
      | (Some line, input') \<Rightarrow>
          (case vertex_line F (vertex_props r) line (\<lambda>_. f_zero F) of
             (Success, prop_values) \<Rightarrow> vertexes_ascii F k input' (addVertexProperty F prop_values r)
           | (Failure, _) \<Rightarrow> (Failure, input', r)
           | (Exception, _) \<Rightarrow> (Exception, input', r)))"

definition ReadVertexes_ascii ::
  "'f float_ops \<Rightarrow> istream \<Rightarrow> 'f ReaderPLY \<Rightarrow> status \<times> istream \<times> 'f ReaderPLY" where
  "ReadVertexes_ascii F input r = vertexes_ascii F (v_count r) input r"

text \<open>
  \<open>ReadFaces(std::istream&)\<close>. \<^verbatim>\<open>MeshFacet\<close> takes unsigned 64-bit indices, so the
  \<^verbatim>\<open>int\<close> values are converted modulo \<open>2^64\<close>.
\<close>

primrec faces_ascii :: "nat \<Rightarrow> istream \<Rightarrow> 'f ReaderPLY \<Rightarrow> status \<times> istream \<times> 'f ReaderPLY" where
  "faces_ascii 0 input r = (Success, input, r)"
| "faces_ascii (Suc k) input r =
     (case getline input of
        (None, input') \<Rightarrow> (Success, input', r)
      | (Some line, input') \<Rightarrow>
          (case rx_f line of
             None \<Rightarrow> faces_ascii k input' r
           | Some (g1, g2, g3) \<Rightarrow>
               (case (lexical_cast_int g1, lexical_cast_int g2, lexical_cast_int g3) of
                  (Some a, Some b, Some c) \<Rightarrow>
                    faces_ascii k input'
                      (r\<lparr>meshFacets := meshFacets r @
                          [(nat (a mod 2 ^ 64), nat (b mod 2 ^ 64), nat (c mod 2 ^ 64))]\<rparr>)
                | _ \<Rightarrow> (Exception, input', r))))"

definition ReadFaces_ascii :: "istream \<Rightarrow> 'f ReaderPLY \<Rightarrow> status \<times> istream \<times> 'f ReaderPLY" where
  "ReadFaces_ascii input r = faces_ascii (f_count r) input r"

definition LoadAscii ::
  "'f float_ops \<Rightarrow> istream \<Rightarrow> 'f ReaderPLY \<Rightarrow> status \<times> istream \<times> 'f ReaderPLY" where
  "LoadAscii F input r =
     (case ReadVertexes_ascii F input r of
        (Success, i1, r1) \<Rightarrow>
          (case ReadFaces_ascii i1 r1 of
             (Success, i2, r2) \<Rightarrow> (Success, i2, CleanupMesh r2)
           | (st, i2, r2) \<Rightarrow> (st, i2, r2))
      | (st, i1, r1) \<Rightarrow> (st, i1, r1))"

subsection \<open>The binary body\<close>

text \<open>The loop over \<open>vertex_props\<close> for one record of \<open>ReadVertexes(Base::InputStream&)\<close>.\<close>

fun vertex_record ::
  "'f InputStream \<Rightarrow> (Property \<times> Number) list \<Rightarrow> istream \<Rightarrow> 'f PropertyArray \<Rightarrow> 'f PropertyArray \<times> istream"
  where
  "vertex_record R [] s prop_values = (prop_values, s)"
| "vertex_record R ((p, k) # ps) s prop_values =
     (let (v, s') = rd_num R k s in vertex_record R ps s' (prop_values(p := v)))"

primrec vertexes_binary ::
  "'f float_ops \<Rightarrow> 'f InputStream \<Rightarrow> nat \<Rightarrow> istream \<Rightarrow> 'f ReaderPLY \<Rightarrow> istream \<times> 'f ReaderPLY" where
  "vertexes_binary F R 0 s r = (s, r)"
| "vertexes_binary F R (Suc k) s r =
     (let (prop_values, s') = vertex_record R (vertex_props r) s (\<lambda>_. f_zero F)
      in vertexes_binary F R k s' (addVertexProperty F prop_values r))"

definition ReadVertexes_binary ::
  "'f float_ops \<Rightarrow> 'f InputStream \<Rightarrow> istream \<Rightarrow> 'f ReaderPLY \<Rightarrow> status \<times> istream \<times> 'f ReaderPLY" where
  "ReadVertexes_binary F R s r =
     (let (s', r') = vertexes_binary F R (v_count r) s r in (Success, s', r'))"

definition LoadBinary ::
  "'f float_ops \<Rightarrow> istream \<Rightarrow> 'f ReaderPLY \<Rightarrow> status \<times> istream \<times> 'f ReaderPLY" where
  "LoadBinary F input r =
     (let is = Base_InputStream F (format r \<noteq> binary_little_endian)
      in case ReadVertexes_binary F is input r of
           (Success, i1, r1) \<Rightarrow>
             (case ReadFaces_binary is i1 r1 of
                (Success, i2, r2) \<Rightarrow> (Success, i2, CleanupMesh r2)
              | (st, i2, r2) \<Rightarrow> (st, i2, r2))
         | (st, i1, r1) \<Rightarrow> (st, i1, r1))"

subsection \<open>Load\<close>

definition Load ::
  "'f float_ops \<Rightarrow> limits \<Rightarrow> istream \<Rightarrow> 'f ReaderPLY \<Rightarrow> status \<times> istream \<times> 'f ReaderPLY" where
  "Load F L input r =
     (case CheckHeader input of
        (False, i1) \<Rightarrow> (Failure, i1, r)
      | (True, i1) \<Rightarrow>
          (case ReadHeader L i1 [] r of
             (Failure, i2, r2) \<Rightarrow> (Failure, i2, r2)
           | (Exception, i2, r2) \<Rightarrow> (Exception, i2, r2)
           | (Success, i2, r2) \<Rightarrow>
               if \<not> VerifyVertexProperty r2 then (Failure, i2, r2)
               else (case VerifyColorProperty r2 of
                       (False, r3) \<Rightarrow> (Failure, i2, r3)
                     | (True, r3) \<Rightarrow>
                         if format r3 = ascii then LoadAscii F i2 r3 else LoadBinary F i2 r3)))"

subsection \<open>Lines of a stream and runs of lines\<close>

text \<open>The lines \<open>getline\<close> yields from a stream until it fails.\<close>

function input_lines :: "istream \<Rightarrow> string list" where
  "input_lines s = (case getline s of (None, s') \<Rightarrow> [] | (Some l, s') \<Rightarrow> l # input_lines s')"
  by pat_completeness auto
termination
  apply (relation "measure (\<lambda>s. length (chars s))")
   apply simp
  apply (auto simp: getline_def Let_def split: if_splits)
  done

declare input_lines.simps [simp del]

text \<open>
  A run of header lines none of which ends or aborts the header: the element context and
  the reader after the last of them, \<open>None\<close> when a line is \<^verbatim>\<open>end_header\<close>, is rejected
  or throws.
\<close>

fun header_run ::
  "limits \<Rightarrow> string list \<Rightarrow> string \<Rightarrow> 'f ReaderPLY \<Rightarrow> (string \<times> 'f ReaderPLY) option" where
  "header_run L [] element r = Some (element, r)"
| "header_run L (l # ls) element r =
     (case header_line L l element r of
        (Continue, e', r') \<Rightarrow> header_run L ls e' r'
      | (Stop, e', r') \<Rightarrow> None
      | (Abort, e', r') \<Rightarrow> None
      | (Throw, e', r') \<Rightarrow> None)"

text \<open>
  The shape of a header line: a separator is a non-empty run of whitespace, a token a
  non-empty run of other characters.
\<close>

definition is_blank :: "string \<Rightarrow> bool" where
  "is_blank w = (w \<noteq> [] \<and> list_all is_space w)"

definition is_token :: "string \<Rightarrow> bool" where
  "is_token t = (t \<noteq> [] \<and> list_all (\<lambda>c. \<not> is_space c) t)"

text \<open>The format mode a recognized format name stands for.\<close>

definition mode_of :: "string \<Rightarrow> Format" where
  "mode_of name =
     (if name = ''ascii'' then ascii
      else if name = ''binary_big_endian'' then binary_big_endian
      else if name = ''binary_little_endian'' then binary_little_endian
      else unknown)"

text \<open>
  Section 4.3 of the specification for one vertex line: the lexical pattern selected by
  the kind of an entry, the conversion of the matched token, and the rest of the line
  after the entries of a list have each matched and been converted (\<open>None\<close> when one of
  them does not match or does not convert).
\<close>

definition pattern :: "Number \<Rightarrow> string \<Rightarrow> (string \<times> nat) option" where
  "pattern k =
     (if k = int8 \<or> k = int16 \<or> k = int32 then rx_s
      else if k = uint8 \<or> k = uint16 \<or> k = uint32 then rx_u
      else rx_d)"

definition convert :: "'f float_ops \<Rightarrow> Number \<Rightarrow> string \<Rightarrow> 'f option" where
  "convert F k g =
     (if k = float32 \<or> k = float64 then f_of_text F g
      else map_option (f_of_int F) (lexical_cast_int g))"

fun consume :: "'f float_ops \<Rightarrow> (Property \<times> Number) list \<Rightarrow> string \<Rightarrow> string option" where
  "consume F [] line = Some line"
| "consume F ((p, k) # ps) line =
     (case pattern k line of
        None \<Rightarrow> None
      | Some (g, len) \<Rightarrow>
          (case convert F k g of
             None \<Rightarrow> None
           | Some v \<Rightarrow> consume F ps (drop len line)))"

text \<open>
  The facet an ASCII face line stands for: the three tokens of a line that matches the
  face pattern, read as decimal numbers.
\<close>

definition facet_of_line :: "string \<Rightarrow> MeshFacet option" where
  "facet_of_line line =
     (case rx_f line of
        None \<Rightarrow> None
      | Some (g1, g2, g3) \<Rightarrow> Some (dec g1, dec g2, dec g3))"

text \<open>A matched token is in the range of the \<^verbatim>\<open>int\<close> it is cast to.\<close>

definition fits_int :: "string \<Rightarrow> bool" where
  "fits_int line =
     (case rx_f line of
        None \<Rightarrow> True
      | Some (g1, g2, g3) \<Rightarrow> dec g1 < 2 ^ 31 \<and> dec g2 < 2 ^ 31 \<and> dec g3 < 2 ^ 31)"

subsection \<open>The assembled point and color\<close>



subsection \<open>The layout of a binary face record\<close>

text \<open>
  The bytes of the face properties as section 4.4 of the specification lays them out:
  an entry of an integer kind occupies its width; an entry of a float kind occupies a count
  byte and that many values of its width. \<open>props_size\<close> is the size of all entries, one
  after the other in declared order, at the front of a byte string.
\<close>

fun width :: "Number \<Rightarrow> nat" where
  "width int8 = 1" | "width uint8 = 1" | "width int16 = 2" | "width uint16 = 2"
| "width int32 = 4" | "width uint32 = 4" | "width float32 = 4" | "width float64 = 8"

definition entry_size :: "Number \<Rightarrow> string \<Rightarrow> nat" where
  "entry_size k bs =
     (if k = float32 \<or> k = float64 then 1 + (of_char (hd bs) :: nat) * width k else width k)"

fun props_size :: "Number list \<Rightarrow> string \<Rightarrow> nat" where
  "props_size [] bs = 0"
| "props_size (k # ks) bs = entry_size k bs + props_size ks (drop (entry_size k bs) bs)"

subsection \<open>Concrete inputs\<close>

text \<open>
  An instance of the float operations that keeps a float value as the expression that
  computes it, a reader as its constructor leaves it, limits of a million points and a
  million facets, and a readable stream over given characters. They serve to run the
  reader on concrete files.
\<close>

datatype sym_float =
  FZero | FInt int | FBits32 "32 word" | FBits64 "64 word" | FText string | FDiv sym_float sym_float

definition sym_ops :: "sym_float float_ops" where
  "sym_ops = \<lparr>f_zero = FZero, f_of_int = FInt, f_of_bits32 = FBits32, f_of_bits64 = FBits64,
     f_of_text = (\<lambda>t. Some (FText t)), f_div = FDiv\<rparr>"

definition new_reader :: "'f ReaderPLY" where
  "new_reader = \<lparr>format = unknown, v_count = 0, f_count = 0, vertex_props = [], face_props = [],
     meshPoints = [], meshFacets = [], material = None, handoffs = []\<rparr>"

definition test_limits :: limits where
  "test_limits = \<lparr>max_points = 1000000, max_facets = 1000000\<rparr>"

definition stream_of :: "string \<Rightarrow> istream" where
  "stream_of cs = \<lparr>chars = cs, failed = False\<rparr>"

text \<open>A file given by its lines, each ended by a newline.\<close>

definition ply_lines :: "string list \<Rightarrow> string" where
  "ply_lines ls = concat (map (\<lambda>l. l @ [CHR 0x0A]) ls)"


section \<open>Properties of the binary face decoder\<close>

lemma face_record_vc:
  "fst (face_record R (v, s, r\<lparr>v_count := vc\<rparr>)) = fst (face_record R (v, s, r))"
  "fst (snd (face_record R (v, s, r\<lparr>v_count := vc\<rparr>))) = fst (snd (face_record R (v, s, r)))"
  by (simp_all add: face_record_def Let_def split: prod.splits)

lemma face_record_props: "face_props (snd (snd (face_record R (v, s, r)))) = face_props r"
  by (simp add: face_record_def Let_def split: prod.splits)

text \<open>
  The variables and the stream after a record depend on the reader through \<open>face_props\<close>
  only, and so do those after any number of records.
\<close>

lemma face_record_cursor:
  assumes "face_props r1 = face_props r2"
  shows "fst (face_record R (v, s, r1)) = fst (face_record R (v, s, r2))
       \<and> fst (snd (face_record R (v, s, r1))) = fst (snd (face_record R (v, s, r2)))"
  using assms by (simp add: face_record_def Let_def split: prod.splits)

lemma face_loop_cursor:
  assumes "face_props r1 = face_props r2"
  shows "fst (face_loop R k (v, s, r1)) = fst (face_loop R k (v, s, r2))
       \<and> fst (snd (face_loop R k (v, s, r1))) = fst (snd (face_loop R k (v, s, r2)))"
  using assms
proof (induction k arbitrary: v s r1 r2)
  case 0
  then show ?case by simp
next
  case (Suc k)
  obtain v1 s1 r1' where a: "face_record R (v, s, r1) = (v1, s1, r1')"
    by (cases "face_record R (v, s, r1)") auto
  obtain v2 s2 r2' where b: "face_record R (v, s, r2) = (v2, s2, r2')"
    by (cases "face_record R (v, s, r2)") auto
  from face_record_cursor [OF Suc.prems, of R v s] a b have eq: "v1 = v2" "s1 = s2"
    by simp_all
  have "face_props r1' = face_props r2'"
    using face_record_props [of R v s r1] face_record_props [of R v s r2] a b Suc.prems by simp
  from Suc.IH [OF this, of v1 s1] show ?case by (simp add: a b eq)
qed

text \<open>
  C1. A binary face record whose count is 3 and one of whose three indices (they are the
  values of \<open>f1, f2, f3\<close> after the record) is not below \<open>v_count\<close> appends no facet. With
  any vertex count \<open>vc\<close> that keeps the facet, the same record leaves the same variables and
  the same stream, and so does every later record: the stream after \<open>k\<close> more records is
  the same in both runs.
\<close>

theorem binary_dropped_facet_keeps_cursor:
  assumes "fst (rd_u8 R (var_n v) s) = 3"
    and "face_record R (v, s, r) = (v', s', r')"
    and "\<not> (unat (var_f1 v') < v_count r \<and> unat (var_f2 v') < v_count r
           \<and> unat (var_f3 v') < v_count r)"
    and "unat (var_f1 v') < vc \<and> unat (var_f2 v') < vc \<and> unat (var_f3 v') < vc"
  shows "meshFacets r' = meshFacets r
       \<and> face_record R (v, s, r\<lparr>v_count := vc\<rparr>)
           = (v', s', r\<lparr>v_count := vc, meshFacets := meshFacets r @
                [(unat (var_f1 v'), unat (var_f2 v'), unat (var_f3 v'))]\<rparr>)
       \<and> (\<forall>k. fst (snd (face_loop R k (face_record R (v, s, r\<lparr>v_count := vc\<rparr>))))
              = fst (snd (face_loop R k (face_record R (v, s, r)))))"
proof (intro conjI allI)
  show "meshFacets r' = meshFacets r"
    using assms(1,2,3) by (auto simp: face_record_def Let_def split: prod.splits if_splits)
  show "face_record R (v, s, r\<lparr>v_count := vc\<rparr>)
           = (v', s', r\<lparr>v_count := vc, meshFacets := meshFacets r @
                [(unat (var_f1 v'), unat (var_f2 v'), unat (var_f3 v'))]\<rparr>)"
    using assms(1,2,4) by (auto simp: face_record_def Let_def split: prod.splits if_splits)
  fix k
  obtain v2 s2 r2 where b: "face_record R (v, s, r\<lparr>v_count := vc\<rparr>) = (v2, s2, r2)"
    by (cases "face_record R (v, s, r\<lparr>v_count := vc\<rparr>)") auto
  have eq: "v2 = v'" "s2 = s'"
    using face_record_vc [where R = R and v = v and s = s and r = r and vc = vc] b assms(2)
    by simp_all
  have "face_props r2 = face_props r'"
    using face_record_props [of R v s r] face_record_props [of R v s "r\<lparr>v_count := vc\<rparr>"]
      b assms(2)
    by simp
  from face_loop_cursor [OF this, of R k v' s']
  show "fst (snd (face_loop R k (face_record R (v, s, r\<lparr>v_count := vc\<rparr>))))
      = fst (snd (face_loop R k (face_record R (v, s, r))))"
    by (simp add: b assms(2) eq)
qed

text \<open>
  A little-endian record with count 3 and indices 0, 1, 9, followed by one \<open>uint8\<close> face
  property, in a mesh of 3 vertices: no facet, and the stream is where a mesh of 10
  vertices, which keeps the facet, leaves it.
\<close>

theorem binary_dropped_facet_keeps_cursor_witness:
  "fst (rd_u8 (Base_InputStream sym_ops False) 0
      (stream_of [CHR 0x03, CHR 0x00, CHR 0x00, CHR 0x00, CHR 0x00, CHR 0x01, CHR 0x00,
         CHR 0x00, CHR 0x00, CHR 0x09, CHR 0x00, CHR 0x00, CHR 0x00, CHR 0x07, CHR 0x03])) = 3
   \<and> \<not> (unat (9 :: 32 word) < 3)
   \<and> face_record (Base_InputStream sym_ops False)
       (\<lparr>var_n = 0, var_f1 = 0, var_f2 = 0, var_f3 = 0\<rparr>,
        stream_of [CHR 0x03, CHR 0x00, CHR 0x00, CHR 0x00, CHR 0x00, CHR 0x01, CHR 0x00,
          CHR 0x00, CHR 0x00, CHR 0x09, CHR 0x00, CHR 0x00, CHR 0x00, CHR 0x07, CHR 0x03],
        new_reader\<lparr>v_count := 3, face_props := [uint8]\<rparr>)
     = (\<lparr>var_n = 3, var_f1 = 0, var_f2 = 1, var_f3 = 9\<rparr>, stream_of [CHR 0x03],
        (new_reader :: sym_float ReaderPLY)\<lparr>v_count := 3, face_props := [uint8]\<rparr>)
   \<and> face_record (Base_InputStream sym_ops False)
       (\<lparr>var_n = 0, var_f1 = 0, var_f2 = 0, var_f3 = 0\<rparr>,
        stream_of [CHR 0x03, CHR 0x00, CHR 0x00, CHR 0x00, CHR 0x00, CHR 0x01, CHR 0x00,
          CHR 0x00, CHR 0x00, CHR 0x09, CHR 0x00, CHR 0x00, CHR 0x00, CHR 0x07, CHR 0x03],
        new_reader\<lparr>v_count := 10, face_props := [uint8]\<rparr>)
     = (\<lparr>var_n = 3, var_f1 = 0, var_f2 = 1, var_f3 = 9\<rparr>, stream_of [CHR 0x03],
        (new_reader :: sym_float ReaderPLY)\<lparr>v_count := 10, face_props := [uint8],
           meshFacets := [(0, 1, 9)]\<rparr>)"
proof -
  let ?R = "Base_InputStream sym_ops False :: sym_float InputStream"
  let ?v = "\<lparr>var_n = 0, var_f1 = 0, var_f2 = 0, var_f3 = 0\<rparr>"
  let ?s = "stream_of [CHR 0x03, CHR 0x00, CHR 0x00, CHR 0x00, CHR 0x00, CHR 0x01, CHR 0x00,
         CHR 0x00, CHR 0x00, CHR 0x09, CHR 0x00, CHR 0x00, CHR 0x00, CHR 0x07, CHR 0x03]"
  let ?r = "new_reader\<lparr>v_count := 3, face_props := [uint8]\<rparr> :: sym_float ReaderPLY"
  let ?v' = "\<lparr>var_n = 3, var_f1 = 0, var_f2 = 1, var_f3 = 9\<rparr>"
  have h1: "fst (rd_u8 ?R (var_n ?v) ?s) = 3"
    by (simp add: Base_InputStream_def get_word_def read_raw_def stream_of_def le_word_def
        word_bytes_def Let_def)
  have h2: "face_record ?R (?v, ?s, ?r) = (?v', stream_of [CHR 0x03], ?r)"
    by (simp add: face_record_def Base_InputStream_def get_word_def read_raw_def stream_of_def
        le_word_def new_reader_def word_bytes_def Let_def)
  have h3: "\<not> (unat (var_f1 ?v') < v_count ?r \<and> unat (var_f2 ?v') < v_count ?r
           \<and> unat (var_f3 ?v') < v_count ?r)"
    by (simp add: new_reader_def)
  have h4: "unat (var_f1 ?v') < 10 \<and> unat (var_f2 ?v') < 10 \<and> unat (var_f3 ?v') < 10"
    by simp
  from binary_dropped_facet_keeps_cursor [OF h1 h2 h3 h4] h1 h2
  show ?thesis by (simp add: new_reader_def)
qed

text \<open>
  With the byte stream of \<open>LoadBinary\<close>: a read from a stream that holds enough bytes
  removes exactly the bytes of the variable, and the count byte read is the byte found.
\<close>

lemma get_word_stream:
  "\<not> failed s \<Longrightarrow> LENGTH('a) div 8 \<le> length (chars s) \<Longrightarrow>
   snd (get_word swap (old :: 'a::len word) s) = s\<lparr>chars := drop (LENGTH('a) div 8) (chars s)\<rparr>"
  by (simp add: get_word_def read_raw_def Let_def)

lemma get_num_stream:
  "\<not> failed s \<Longrightarrow> width k \<le> length (chars s) \<Longrightarrow>
   snd (get_num F swap k s) = s\<lparr>chars := drop (width k) (chars s)\<rparr>"
  using get_word_stream [where 'a = 8 and s = s and swap = swap and old = 0]
    get_word_stream [where 'a = 16 and s = s and swap = swap and old = 0]
    get_word_stream [where 'a = 32 and s = s and swap = swap and old = 0]
    get_word_stream [where 'a = 64 and s = s and swap = swap and old = 0]
  by (cases k) (simp_all add: case_prod_beta)

lemma read_values_stream:
  "\<not> failed s \<Longrightarrow> m * width k \<le> length (chars s) \<Longrightarrow>
   read_values (Base_InputStream F swap) k m s = s\<lparr>chars := drop (m * width k) (chars s)\<rparr>"
proof (induction m arbitrary: s)
  case 0
  then show ?case by simp
next
  case (Suc m)
  have w: "width k \<le> length (chars s)" using Suc.prems(2) by simp
  have st: "snd (rd_num (Base_InputStream F swap) k s) = s\<lparr>chars := drop (width k) (chars s)\<rparr>"
    using get_num_stream [OF Suc.prems(1) w] by (simp add: Base_InputStream_def)
  have "read_values (Base_InputStream F swap) k m (s\<lparr>chars := drop (width k) (chars s)\<rparr>)
      = (s\<lparr>chars := drop (width k) (chars s)\<rparr>)\<lparr>chars := drop (m * width k) (chars (s\<lparr>chars := drop (width k) (chars s)\<rparr>))\<rparr>"
    using Suc.prems by (intro Suc.IH) simp_all
  then show ?case by (simp add: st add.commute)
qed

lemma get_word8_value:
  "\<not> failed s \<Longrightarrow> chars s \<noteq> [] \<Longrightarrow>
   unat (fst (get_word swap (old :: 8 word) s)) = of_char (hd (chars s))"
  by (cases "chars s") (simp_all add: get_word_def read_raw_def Let_def le_word_def word_bytes_def unat_of_nat)

lemma get_word8_is3:
  "\<not> failed s \<Longrightarrow> chars s = c # cs \<Longrightarrow>
   (fst (get_word swap (old :: 8 word) s) = 3) = (c = CHR 0x03)"
proof -
  assume a: "\<not> failed s" "chars s = c # cs"
  have u: "unat (fst (get_word swap old s)) = of_char c" using get_word8_value [of s swap old] a by simp
  have "(fst (get_word swap old s) = 3) = (unat (fst (get_word swap old s)) = 3)"
    by (simp add: word_unat_eq_iff)
  also have "\<dots> = ((of_char c :: nat) = of_char (CHR 0x03))"
  proof -
    have c3: "(of_char (CHR 0x03) :: nat) = 3" by simp
    show ?thesis unfolding u c3 ..
  qed
  also have "\<dots> = (c = CHR 0x03)" by (simp only: of_char_eq_iff)
  finally show ?thesis .
qed

lemma face_prop_stream:
  assumes "\<not> failed s" "entry_size k (chars s) \<le> length (chars s)"
  shows "snd (face_prop (Base_InputStream F swap) k (m, s)) = s\<lparr>chars := drop (entry_size k (chars s)) (chars s)\<rparr>"
proof (cases "k = float32 \<or> k = float64")
  case False
  then have "face_prop (Base_InputStream F swap) k (m, s) = (m, snd (rd_num (Base_InputStream F swap) k s))"
    by (cases k) simp_all
  with False assms show ?thesis
    using get_num_stream [of s k F swap] by (simp add: entry_size_def Base_InputStream_def)
next
  case True
  from True assms(2) have ne: "chars s \<noteq> []" by (auto simp: entry_size_def)
  let ?s1 = "s\<lparr>chars := drop 1 (chars s)\<rparr>"
  have s1: "snd (get_word swap m s) = ?s1"
    using get_word_stream [where 'a = 8 and s = s and swap = swap and old = m] assms(1) ne
    by (cases "chars s") simp_all
  have m1: "unat (fst (get_word swap m s)) = of_char (hd (chars s))"
    using get_word8_value [OF assms(1) ne] .
  have len: "of_char (hd (chars s)) * width k \<le> length (chars ?s1)"
    using True assms(2) ne by (auto simp: entry_size_def)
  have rv: "read_values (Base_InputStream F swap) k (of_char (hd (chars s))) ?s1
      = ?s1\<lparr>chars := drop (of_char (hd (chars s)) * width k) (chars ?s1)\<rparr>"
    using assms(1) len by (intro read_values_stream) simp_all
  have "snd (face_prop (Base_InputStream F swap) k (m, s))
      = read_values (Base_InputStream F swap) k (unat (fst (get_word swap m s))) (snd (get_word swap m s))"
    using True by (auto simp: Base_InputStream_def case_prod_beta)
  then show ?thesis using True rv by (simp add: s1 m1 entry_size_def)
qed

lemma face_prop_not_failed:
  assumes "\<not> failed s" "entry_size k (chars s) \<le> length (chars s)"
  shows "\<not> failed (snd (face_prop (Base_InputStream F swap) k (m, s)))"
  using face_prop_stream [OF assms, of F swap m] assms(1) by simp

lemma face_props_stream:
  assumes "\<not> failed s" "props_size ks (chars s) \<le> length (chars s)"
  shows "snd (foldl (\<lambda>acc k. face_prop (Base_InputStream F swap) k acc) (m, s) ks)
       = s\<lparr>chars := drop (props_size ks (chars s)) (chars s)\<rparr>"
  using assms
proof (induction ks arbitrary: m s)
  case Nil
  then show ?case by simp
next
  case (Cons k ks)
  obtain m' s' where st: "face_prop (Base_InputStream F swap) k (m, s) = (m', s')"
    by (cases "face_prop (Base_InputStream F swap) k (m, s)") auto
  have e: "entry_size k (chars s) \<le> length (chars s)" using Cons.prems(2) by simp
  have s': "s' = s\<lparr>chars := drop (entry_size k (chars s)) (chars s)\<rparr>"
    using face_prop_stream [OF Cons.prems(1) e, of F swap m] st by simp
  have nf: "\<not> failed s'" using s' Cons.prems(1) by simp
  have sz: "props_size ks (chars s') \<le> length (chars s')"
    using Cons.prems(2) e by (simp add: s')
  from Cons.IH [OF nf sz, of m'] show ?case by (simp add: st s' add.commute)
qed


text \<open>
  The face properties are not read when the count is not 3: for the
  bytes 4, 7, 9 and one \<open>uint8\<close> face property the record ends after the count byte, with
  7 and 9 still in the stream, whereas reading the property after the count would leave 9.
\<close>

theorem binary_face_props_skipped_counterexample:
  "fst (rd_u8 (Base_InputStream sym_ops False) 0 (stream_of [CHR 0x04, CHR 0x07, CHR 0x09])) \<noteq> 3
   \<and> fst (snd (face_record (Base_InputStream sym_ops False)
         (\<lparr>var_n = 0, var_f1 = 0, var_f2 = 0, var_f3 = 0\<rparr>,
          stream_of [CHR 0x04, CHR 0x07, CHR 0x09],
          (new_reader :: sym_float ReaderPLY)\<lparr>face_props := [uint8]\<rparr>)))
       = stream_of [CHR 0x07, CHR 0x09]
   \<and> snd (foldl (\<lambda>acc k. face_prop (Base_InputStream sym_ops False) k acc)
         (rd_u8 (Base_InputStream sym_ops False) 0 (stream_of [CHR 0x04, CHR 0x07, CHR 0x09]))
         [uint8])
       = stream_of [CHR 0x09]
   \<and> fst (snd (face_record (Base_InputStream sym_ops False)
         (\<lparr>var_n = 0, var_f1 = 0, var_f2 = 0, var_f3 = 0\<rparr>,
          stream_of [CHR 0x04, CHR 0x07, CHR 0x09],
          (new_reader :: sym_float ReaderPLY)\<lparr>face_props := [uint8]\<rparr>)))
       \<noteq> snd (foldl (\<lambda>acc k. face_prop (Base_InputStream sym_ops False) k acc)
         (rd_u8 (Base_InputStream sym_ops False) 0 (stream_of [CHR 0x04, CHR 0x07, CHR 0x09]))
         [uint8])"
  by (simp add: face_record_def Base_InputStream_def get_word_def read_raw_def stream_of_def
        le_word_def new_reader_def word_bytes_def Let_def)

text \<open>
  C2, amended. For a face record read from a stream that has not failed: when the count
  byte is 3 and the record is complete, the stream after the record is past the count, the
  three 32-bit indices and every face property in declared order, whether or not the facet
  is kept; when the count byte is not 3, only the count byte has been read and the reader
  is unchanged.
\<close>

theorem binary_face_props_read_iff_triangle:
  assumes "\<not> failed s" and "chars s = c # rest"
    and "face_record (Base_InputStream F swap) (v, s, r) = (v', s', r')"
  shows "(c = CHR 0x03 \<and> 12 + props_size (face_props r) (drop 12 rest) \<le> length rest
            \<longrightarrow> s' = s\<lparr>chars := drop (12 + props_size (face_props r) (drop 12 rest)) rest\<rparr>)
       \<and> (c \<noteq> CHR 0x03 \<longrightarrow> s' = s\<lparr>chars := rest\<rparr> \<and> r' = r)"
proof -
  let ?R = "Base_InputStream F swap"
  have n1: "(fst (rd_u8 ?R (var_n v) s) = 3) = (c = CHR 0x03)"
    using get_word8_is3 [OF assms(1,2)] by (simp add: Base_InputStream_def)
  have s1: "snd (rd_u8 ?R (var_n v) s) = s\<lparr>chars := rest\<rparr>"
    using get_word_stream [where 'a = 8 and s = s and swap = swap and old = "var_n v"] assms(1,2)
    by (simp add: Base_InputStream_def)
  have other: "c \<noteq> CHR 0x03 \<longrightarrow> s' = s\<lparr>chars := rest\<rparr> \<and> r' = r"
    using assms(3) n1 s1 by (auto simp: face_record_def Let_def split: prod.splits if_splits)
  have tri: "s' = s\<lparr>chars := drop (12 + props_size (face_props r) (drop 12 rest)) rest\<rparr>"
    if c3: "c = CHR 0x03" and len: "12 + props_size (face_props r) (drop 12 rest) \<le> length rest"
  proof -
    let ?s1 = "s\<lparr>chars := rest\<rparr>"
    let ?s2 = "s\<lparr>chars := drop 4 rest\<rparr>"
    let ?s3 = "s\<lparr>chars := drop 8 rest\<rparr>"
    let ?s4 = "s\<lparr>chars := drop 12 rest\<rparr>"
    have s2: "snd (rd_u32 ?R (var_f1 v) ?s1) = ?s2"
      using get_word_stream [where 'a = 32 and s = ?s1 and swap = swap and old = "var_f1 v"]
        assms(1) len by (simp add: Base_InputStream_def)
    have s3: "snd (rd_u32 ?R (var_f2 v) ?s2) = ?s3"
      using get_word_stream [where 'a = 32 and s = ?s2 and swap = swap and old = "var_f2 v"]
        assms(1) len by (simp add: Base_InputStream_def)
    have s4: "snd (rd_u32 ?R (var_f3 v) ?s3) = ?s4"
      using get_word_stream [where 'a = 32 and s = ?s3 and swap = swap and old = "var_f3 v"]
        assms(1) len by (simp add: Base_InputStream_def)
    have nf: "\<not> failed ?s4" using assms(1) by simp
    have sz: "props_size (face_props r) (chars ?s4) \<le> length (chars ?s4)" using len by simp
    have fold: "snd (foldl (\<lambda>acc k. face_prop ?R k acc) (m, ?s4) (face_props r))
        = ?s4\<lparr>chars := drop (props_size (face_props r) (chars ?s4)) (chars ?s4)\<rparr>" for m
      by (rule face_props_stream [OF nf sz])
    have "s' = snd (foldl (\<lambda>acc k. face_prop ?R k acc)
           (fst (rd_u8 ?R (var_n v) s),
            snd (rd_u32 ?R (var_f3 v) (snd (rd_u32 ?R (var_f2 v)
              (snd (rd_u32 ?R (var_f1 v) (snd (rd_u8 ?R (var_n v) s)))))))) (face_props r))"
      using assms(3) n1 c3
      by (auto simp: face_record_def Let_def split: prod.splits if_splits)
    then show ?thesis by (simp add: s1 s2 s3 s4 fold add.commute)
  qed
  from tri other show ?thesis by blast
qed

text \<open>
  A record with count 3, the indices 0, 1, 9, a \<open>float32\<close> property holding a list of one
  value and a \<open>uint8\<close> property: 18 bytes follow the count, and the next record starts
  right after them.
\<close>

theorem binary_face_props_read_iff_triangle_witness:
  "face_record (Base_InputStream sym_ops False)
       (\<lparr>var_n = 0, var_f1 = 0, var_f2 = 0, var_f3 = 0\<rparr>,
        stream_of [CHR 0x03, CHR 0x00, CHR 0x00, CHR 0x00, CHR 0x00, CHR 0x01, CHR 0x00,
          CHR 0x00, CHR 0x00, CHR 0x09, CHR 0x00, CHR 0x00, CHR 0x00, CHR 0x01, CHR 0x00,
          CHR 0x00, CHR 0x80, CHR 0x3F, CHR 0x07, CHR 0x03],
        (new_reader :: sym_float ReaderPLY)\<lparr>v_count := 3, face_props := [float32, uint8]\<rparr>)
     = (\<lparr>var_n = 1, var_f1 = 0, var_f2 = 1, var_f3 = 9\<rparr>, stream_of [CHR 0x03],
        new_reader\<lparr>v_count := 3, face_props := [float32, uint8]\<rparr>)
   \<and> 12 + props_size [float32, uint8] (drop 12 [CHR 0x00, CHR 0x00, CHR 0x00, CHR 0x00,
          CHR 0x01, CHR 0x00, CHR 0x00, CHR 0x00, CHR 0x09, CHR 0x00, CHR 0x00, CHR 0x00,
          CHR 0x01, CHR 0x00, CHR 0x00, CHR 0x80, CHR 0x3F, CHR 0x07, CHR 0x03]) = 18"
proof -
  let ?s = "stream_of [CHR 0x03, CHR 0x00, CHR 0x00, CHR 0x00, CHR 0x00, CHR 0x01, CHR 0x00,
          CHR 0x00, CHR 0x00, CHR 0x09, CHR 0x00, CHR 0x00, CHR 0x00, CHR 0x01, CHR 0x00,
          CHR 0x00, CHR 0x80, CHR 0x3F, CHR 0x07, CHR 0x03]"
  let ?rest = "[CHR 0x00, CHR 0x00, CHR 0x00, CHR 0x00,
          CHR 0x01, CHR 0x00, CHR 0x00, CHR 0x00, CHR 0x09, CHR 0x00, CHR 0x00, CHR 0x00,
          CHR 0x01, CHR 0x00, CHR 0x00, CHR 0x80, CHR 0x3F, CHR 0x07, CHR 0x03]"
  let ?r = "(new_reader :: sym_float ReaderPLY)\<lparr>v_count := 3, face_props := [float32, uint8]\<rparr>"
  have h1: "\<not> failed ?s" by (simp add: stream_of_def)
  have h2: "chars ?s = CHR 0x03 # ?rest" by (simp add: stream_of_def)
  have h3: "face_record (Base_InputStream sym_ops False)
       (\<lparr>var_n = 0, var_f1 = 0, var_f2 = 0, var_f3 = 0\<rparr>, ?s, ?r)
     = (\<lparr>var_n = 1, var_f1 = 0, var_f2 = 1, var_f3 = 9\<rparr>, stream_of [CHR 0x03], ?r)"
    by (simp add: face_record_def Base_InputStream_def get_word_def read_raw_def stream_of_def
        le_word_def new_reader_def word_bytes_def Let_def)
  have h4: "12 + props_size (face_props ?r) (drop 12 ?rest) = 18"
    by (simp add: entry_size_def new_reader_def)
  from binary_face_props_read_iff_triangle [OF h1 h2 h3] h3 h4
  show ?thesis by (simp add: new_reader_def stream_of_def)
qed


section \<open>Properties of schema validation\<close>

text \<open>The definitions that run the stream operations and the header parser on a given text.\<close>

lemmas stream_defs = getline_def get_char_def get_string_def skip_ws_def get_size_t_def
  read_raw_def ignore1_def stream_of_def is_space_def is_digit_def dec_def
lemmas header_defs = CheckHeader_def header_line_def ReadFormat_def ReadElement_def
  ReadProperty_def ReadVertexProperty_def ReadFaceProperty_def number_of_type_def
  propertyOfName_def test_limits_def

lemma singleton_ex1: "(\<exists>x. A = {x}) = (\<exists>!i. i \<in> A)"
proof
  assume "\<exists>x. A = {x}"
  then obtain x where "A = {x}" ..
  then show "\<exists>!i. i \<in> A" by simp
next
  assume "\<exists>!i. i \<in> A"
  then obtain x where x: "x \<in> A" and u: "\<And>y. y \<in> A \<Longrightarrow> y = x" by (elim ex1E) blast
  have "A = {x}" using x u by blast
  then show "\<exists>x. A = {x}" ..
qed

lemma count_if_one: "(count_if P xs = 1) = (\<exists>!i. i < length xs \<and> P (xs ! i))"
proof -
  have "(card {i. i < length xs \<and> P (xs ! i)} = Suc 0)
      = (\<exists>!i. i \<in> {i. i < length xs \<and> P (xs ! i)})"
    by (simp only: card_1_singleton_iff singleton_ex1)
  then show ?thesis by (simp add: count_if_def length_filter_conv_card)
qed

lemma Load_header_stage:
  assumes "CheckHeader input = (True, i1)" and "ReadHeader L i1 [] r0 = (Success, i2, r)"
  shows "Load F L input r0 =
     (if \<not> VerifyVertexProperty r then (Failure, i2, r)
      else case VerifyColorProperty r of
             (False, r3) \<Rightarrow> (Failure, i2, r3)
           | (True, r3) \<Rightarrow> if format r3 = ascii then LoadAscii F i2 r3 else LoadBinary F i2 r3)"
  using assms by (simp add: Load_def)

text \<open>
  C4. \<open>VerifyVertexProperty\<close> holds exactly when the vertex properties have exactly one
  entry of role \<open>coord_x\<close>, exactly one of role \<open>coord_y\<close> and exactly one of role
  \<open>coord_z\<close>. When it fails after a header that was read, \<open>Load\<close> returns failure with the
  stream and the reader as the header left them: no body is decoded.
\<close>

theorem vertex_schema_validation:
  "(VerifyVertexProperty r \<longleftrightarrow>
      (\<exists>!i. i < length (vertex_props r) \<and> fst (vertex_props r ! i) = coord_x)
    \<and> (\<exists>!i. i < length (vertex_props r) \<and> fst (vertex_props r ! i) = coord_y)
    \<and> (\<exists>!i. i < length (vertex_props r) \<and> fst (vertex_props r ! i) = coord_z))
   \<and> (CheckHeader input = (True, i1) \<and> ReadHeader L i1 [] r0 = (Success, i2, r)
        \<and> \<not> VerifyVertexProperty r \<longrightarrow> Load F L input r0 = (Failure, i2, r))"
proof (intro conjI impI)
  show "VerifyVertexProperty r \<longleftrightarrow>
      (\<exists>!i. i < length (vertex_props r) \<and> fst (vertex_props r ! i) = coord_x)
    \<and> (\<exists>!i. i < length (vertex_props r) \<and> fst (vertex_props r ! i) = coord_y)
    \<and> (\<exists>!i. i < length (vertex_props r) \<and> fst (vertex_props r ! i) = coord_z)"
    by (simp only: VerifyVertexProperty_def Let_def count_if_one PropertyComp_def)
next
  assume "CheckHeader input = (True, i1) \<and> ReadHeader L i1 [] r0 = (Success, i2, r)
        \<and> \<not> VerifyVertexProperty r"
  then show "Load F L input r0 = (Failure, i2, r)"
    using Load_header_stage [of input i1 L r0 i2 r F] by simp
qed

text \<open>
  A header declaring x and two y and no z is read, fails validation, and \<open>Load\<close> fails with
  the vertex line still in the stream.
\<close>

theorem vertex_schema_validation_witness:
  "CheckHeader (stream_of (ply_lines [''ply'', ''element vertex 1'', ''property float x'',
       ''property float y'', ''property float y'', ''end_header'', ''0 0 0'']))
     = (True, stream_of (ply_lines [''element vertex 1'', ''property float x'',
       ''property float y'', ''property float y'', ''end_header'', ''0 0 0'']))
   \<and> ReadHeader test_limits (stream_of (ply_lines [''element vertex 1'', ''property float x'',
       ''property float y'', ''property float y'', ''end_header'', ''0 0 0''])) [] (new_reader :: sym_float ReaderPLY)
     = (Success, stream_of (ply_lines [''0 0 0'']),
        new_reader\<lparr>v_count := 1,
          vertex_props := [(coord_x, float32), (coord_y, float32), (coord_y, float32)]\<rparr>)
   \<and> \<not> VerifyVertexProperty ((new_reader :: sym_float ReaderPLY)\<lparr>v_count := 1,
          vertex_props := [(coord_x, float32), (coord_y, float32), (coord_y, float32)]\<rparr>)
   \<and> Load sym_ops test_limits (stream_of (ply_lines [''ply'', ''element vertex 1'', ''property float x'',
       ''property float y'', ''property float y'', ''end_header'', ''0 0 0''])) new_reader
     = (Failure, stream_of (ply_lines [''0 0 0'']),
        new_reader\<lparr>v_count := 1,
          vertex_props := [(coord_x, float32), (coord_y, float32), (coord_y, float32)]\<rparr>)"
proof -
  let ?input = "stream_of (ply_lines [''ply'', ''element vertex 1'', ''property float x'',
       ''property float y'', ''property float y'', ''end_header'', ''0 0 0''])"
  let ?i1 = "stream_of (ply_lines [''element vertex 1'', ''property float x'',
       ''property float y'', ''property float y'', ''end_header'', ''0 0 0''])"
  let ?i2 = "stream_of (ply_lines [''0 0 0''])"
  let ?r = "(new_reader :: sym_float ReaderPLY)\<lparr>v_count := 1,
          vertex_props := [(coord_x, float32), (coord_y, float32), (coord_y, float32)]\<rparr>"
  have h1: "CheckHeader ?input = (True, ?i1)"
    by (simp add: stream_defs header_defs Let_def ply_lines_def)
  have h2: "ReadHeader test_limits ?i1 [] new_reader = (Success, ?i2, ?r)"
    by (simp add: stream_defs header_defs Let_def new_reader_def ply_lines_def)
  have h3: "\<not> VerifyVertexProperty ?r"
    by (simp add: VerifyVertexProperty_def count_if_def PropertyComp_def)
  from vertex_schema_validation [where r = ?r and input = ?input and ?i1.0 = ?i1
      and ?r0.0 = new_reader and ?i2.0 = ?i2 and F = sym_ops]
  have "CheckHeader ?input = (True, ?i1) \<and> ReadHeader test_limits ?i1 [] new_reader = (Success, ?i2, ?r)
        \<and> \<not> VerifyVertexProperty ?r \<longrightarrow> Load sym_ops test_limits ?input new_reader = (Failure, ?i2, ?r)"
    by (rule conjunct2)
  with h1 h2 h3 have "Load sym_ops test_limits ?input new_reader = (Failure, ?i2, ?r)" by blast
  with h1 h2 h3 show ?thesis by blast
qed

lemma color_total:
  "count_if (\<lambda>p. PropertyComp p color_r) ps + count_if (\<lambda>p. PropertyComp p color_g) ps
     + count_if (\<lambda>p. PropertyComp p color_b) ps
   = length (filter (\<lambda>p. fst p = color_r \<or> fst p = color_g \<or> fst p = color_b) ps)"
  by (induction ps) (auto simp: count_if_def PropertyComp_def)

lemma VerifyColorProperty_fst:
  "fst (VerifyColorProperty r) \<longleftrightarrow>
     length (filter (\<lambda>p. fst p = color_r \<or> fst p = color_g \<or> fst p = color_b) (vertex_props r)) = 0
   \<or> length (filter (\<lambda>p. fst p = color_r \<or> fst p = color_g \<or> fst p = color_b) (vertex_props r)) = 3"
  unfolding VerifyColorProperty_def Let_def color_total
  by (auto split: option.splits)

lemma VerifyColorProperty_False: "\<not> fst (VerifyColorProperty r) \<Longrightarrow> VerifyColorProperty r = (False, r)"
  by (auto simp: VerifyColorProperty_def Let_def split: option.splits if_splits)

text \<open>
  C5. \<open>VerifyColorProperty\<close> succeeds exactly when the number of vertex properties of
  role \<open>color_r\<close>, \<open>color_g\<close> or \<open>color_b\<close> is 0 or 3. With 1 or 2 of them \<open>Load\<close> fails
  with the stream and the reader as the header left them.
\<close>

theorem color_schema_validation:
  "(fst (VerifyColorProperty r) \<longleftrightarrow>
      length (filter (\<lambda>p. fst p = color_r \<or> fst p = color_g \<or> fst p = color_b) (vertex_props r)) = 0
    \<or> length (filter (\<lambda>p. fst p = color_r \<or> fst p = color_g \<or> fst p = color_b) (vertex_props r)) = 3)
   \<and> (CheckHeader input = (True, i1) \<and> ReadHeader L i1 [] r0 = (Success, i2, r)
        \<and> (length (filter (\<lambda>p. fst p = color_r \<or> fst p = color_g \<or> fst p = color_b) (vertex_props r)) = 1
           \<or> length (filter (\<lambda>p. fst p = color_r \<or> fst p = color_g \<or> fst p = color_b) (vertex_props r)) = 2)
        \<longrightarrow> Load F L input r0 = (Failure, i2, r))"
proof (intro conjI impI)
  show "fst (VerifyColorProperty r) \<longleftrightarrow>
      length (filter (\<lambda>p. fst p = color_r \<or> fst p = color_g \<or> fst p = color_b) (vertex_props r)) = 0
    \<or> length (filter (\<lambda>p. fst p = color_r \<or> fst p = color_g \<or> fst p = color_b) (vertex_props r)) = 3"
    by (rule VerifyColorProperty_fst)
next
  assume a: "CheckHeader input = (True, i1) \<and> ReadHeader L i1 [] r0 = (Success, i2, r)
        \<and> (length (filter (\<lambda>p. fst p = color_r \<or> fst p = color_g \<or> fst p = color_b) (vertex_props r)) = 1
           \<or> length (filter (\<lambda>p. fst p = color_r \<or> fst p = color_g \<or> fst p = color_b) (vertex_props r)) = 2)"
  then have "\<not> fst (VerifyColorProperty r)" using VerifyColorProperty_fst [of r] by auto
  then have "VerifyColorProperty r = (False, r)" by (rule VerifyColorProperty_False)
  then show "Load F L input r0 = (Failure, i2, r)"
    using Load_header_stage [of input i1 L r0 i2 r F] a by simp
qed


text \<open>A header declaring x, y, z and red only.\<close>

theorem color_schema_validation_witness:
  "CheckHeader (stream_of (ply_lines [''ply'', ''element vertex 1'', ''property float x'',
       ''property float y'', ''property float z'', ''property uchar red'', ''end_header'',
       ''0 0 0 255'']))
     = (True, stream_of (ply_lines [''element vertex 1'', ''property float x'',
       ''property float y'', ''property float z'', ''property uchar red'', ''end_header'',
       ''0 0 0 255'']))
   \<and> ReadHeader test_limits (stream_of (ply_lines [''element vertex 1'', ''property float x'',
       ''property float y'', ''property float z'', ''property uchar red'', ''end_header'',
       ''0 0 0 255''])) [] (new_reader :: sym_float ReaderPLY)
     = (Success, stream_of (ply_lines [''0 0 0 255'']),
        new_reader\<lparr>v_count := 1, vertex_props :=
          [(coord_x, float32), (coord_y, float32), (coord_z, float32), (color_r, uint8)]\<rparr>)
   \<and> length (filter (\<lambda>p. fst p = color_r \<or> fst p = color_g \<or> fst p = color_b)
        [(coord_x, float32), (coord_y, float32), (coord_z, float32), (color_r, uint8)]) = 1
   \<and> Load sym_ops test_limits (stream_of (ply_lines [''ply'', ''element vertex 1'', ''property float x'',
       ''property float y'', ''property float z'', ''property uchar red'', ''end_header'',
       ''0 0 0 255''])) new_reader
     = (Failure, stream_of (ply_lines [''0 0 0 255'']),
        new_reader\<lparr>v_count := 1, vertex_props :=
          [(coord_x, float32), (coord_y, float32), (coord_z, float32), (color_r, uint8)]\<rparr>)"
proof -
  let ?input = "stream_of (ply_lines [''ply'', ''element vertex 1'', ''property float x'',
       ''property float y'', ''property float z'', ''property uchar red'', ''end_header'',
       ''0 0 0 255''])"
  let ?i1 = "stream_of (ply_lines [''element vertex 1'', ''property float x'',
       ''property float y'', ''property float z'', ''property uchar red'', ''end_header'',
       ''0 0 0 255''])"
  let ?i2 = "stream_of (ply_lines [''0 0 0 255''])"
  let ?r = "(new_reader :: sym_float ReaderPLY)\<lparr>v_count := 1, vertex_props :=
          [(coord_x, float32), (coord_y, float32), (coord_z, float32), (color_r, uint8)]\<rparr>"
  have h1: "CheckHeader ?input = (True, ?i1)"
    by (simp add: stream_defs header_defs Let_def ply_lines_def)
  have h2: "ReadHeader test_limits ?i1 [] new_reader = (Success, ?i2, ?r)"
    by (simp add: stream_defs header_defs Let_def new_reader_def ply_lines_def)
  have h3: "length (filter (\<lambda>p. fst p = color_r \<or> fst p = color_g \<or> fst p = color_b)
        (vertex_props ?r)) = 1"
    by simp
  from color_schema_validation [where r = ?r and input = ?input and ?i1.0 = ?i1
      and ?r0.0 = new_reader and ?i2.0 = ?i2 and F = sym_ops]
  have "CheckHeader ?input = (True, ?i1) \<and> ReadHeader test_limits ?i1 [] new_reader = (Success, ?i2, ?r)
        \<and> (length (filter (\<lambda>p. fst p = color_r \<or> fst p = color_g \<or> fst p = color_b)
              (vertex_props ?r)) = 1
           \<or> length (filter (\<lambda>p. fst p = color_r \<or> fst p = color_g \<or> fst p = color_b)
              (vertex_props ?r)) = 2)
        \<longrightarrow> Load sym_ops test_limits ?input new_reader = (Failure, ?i2, ?r)"
    by (rule conjunct2)
  with h1 h2 h3 have c: "Load sym_ops test_limits ?input new_reader = (Failure, ?i2, ?r)" by blast
  have h4: "length (filter (\<lambda>p. fst p = color_r \<or> fst p = color_g \<or> fst p = color_b)
        [(coord_x, float32), (coord_y, float32), (coord_z, float32), (color_r, uint8)]) = 1"
    by simp
  from h1 h2 h4 c show ?thesis by blast
qed


section \<open>Properties of the vertex decoders\<close>

lemmas ascii_defs = rx_s_def rx_u_def rx_d_def rx_f_def match_d_def match_f_def sign_of_def
  exponent_def is_word_def is_separator_def lexical_cast_int_def








section \<open>Properties of the ASCII face decoder\<close>

lemma takeWhile_all: "list_all P (takeWhile P xs)"
  by (induction xs) simp_all

lemma match_f_digits:
  assumes "match_f cs = Some (g1, g2, g3)"
  shows "(g1 \<noteq> [] \<and> list_all is_digit g1) \<and> (g2 \<noteq> [] \<and> list_all is_digit g2)
       \<and> (g3 \<noteq> [] \<and> list_all is_digit g3)"
  using assms
  by (auto simp: match_f_def Let_def takeWhile_all split: list.splits if_splits)

lemma search_f_digits:
  assumes "search_f cs = Some (g1, g2, g3)"
  shows "(g1 \<noteq> [] \<and> list_all is_digit g1) \<and> (g2 \<noteq> [] \<and> list_all is_digit g2)
       \<and> (g3 \<noteq> [] \<and> list_all is_digit g3)"
  using assms
proof (induction cs)
  case Nil
  then show ?case by simp
next
  case (Cons c cs)
  show ?case
  proof (cases "is_separator c \<and> cs \<noteq> [] \<and> match_f cs \<noteq> None")
    case True
    with Cons.prems have "match_f cs = Some (g1, g2, g3)" by auto
    then show ?thesis by (rule match_f_digits)
  next
    case False
    with Cons.prems have "search_f cs = Some (g1, g2, g3)" by (auto split: option.splits if_splits)
    then show ?thesis by (rule Cons.IH)
  qed
qed

lemma rx_f_digits:
  assumes "rx_f line = Some (g1, g2, g3)"
  shows "(g1 \<noteq> [] \<and> list_all is_digit g1) \<and> (g2 \<noteq> [] \<and> list_all is_digit g2)
       \<and> (g3 \<noteq> [] \<and> list_all is_digit g3)"
proof (cases "match_f line")
  case None
  with assms have "search_f line = Some (g1, g2, g3)" by (simp add: rx_f_def)
  then show ?thesis by (rule search_f_digits)
next
  case (Some g)
  with assms have "match_f line = Some (g1, g2, g3)" by (simp add: rx_f_def)
  then show ?thesis by (rule match_f_digits)
qed

lemma digit_not_sign: "is_digit c \<Longrightarrow> c \<noteq> CHR ''-'' \<and> c \<noteq> CHR ''+''"
  by (auto simp: is_digit_def)

lemma lexical_cast_digits:
  assumes "ds \<noteq> []" and "list_all is_digit ds" and "dec ds < 2 ^ 31"
  shows "lexical_cast_int ds = Some (int (dec ds))"
proof -
  obtain c cs where ds: "ds = c # cs" using assms(1) by (cases ds) auto
  with assms(2) have "is_digit c" by simp
  then have ns: "c \<noteq> CHR ''-''" "c \<noteq> CHR ''+''" using digit_not_sign by blast+
  have "int (dec ds) < 2 ^ 31" using assms(3) by (metis of_nat_less_iff of_nat_numeral of_nat_power)
  moreover have "- (2 ^ 31) \<le> int (dec ds)" by simp
  ultimately show ?thesis using assms(1,2) ns
    by (simp add: lexical_cast_int_def ds Let_def)
qed

lemma input_lines_getline:
  "getline s = (None, s') \<Longrightarrow> input_lines s = []"
  "getline s = (Some l, s') \<Longrightarrow> input_lines s = l # input_lines s'"
  by (simp_all add: input_lines.simps [of s])

lemma getline_None_again: "getline s = (None, s') \<Longrightarrow> input_lines s' = []"
  by (auto simp: getline_def input_lines.simps [of s'] Let_def split: if_splits)

lemma input_lines_Cons:
  assumes "input_lines s = l # ls"
  shows "\<exists>s'. getline s = (Some l, s') \<and> input_lines s' = ls"
proof -
  obtain ol s' where g: "getline s = (ol, s')" by (cases "getline s") auto
  show ?thesis
  proof (cases ol)
    case None
    with g assms show ?thesis by (simp add: input_lines.simps [of s])
  next
    case (Some l')
    with g assms show ?thesis by (simp add: input_lines.simps [of s])
  qed
qed

lemma faces_ascii_facets:
  assumes "\<forall>l \<in> set (take k (input_lines input)). fits_int l"
  shows "\<exists>input'. faces_ascii k input r
     = (Success, input',
        r\<lparr>meshFacets := meshFacets r @ List.map_filter facet_of_line (take k (input_lines input))\<rparr>)
     \<and> input_lines input' = drop k (input_lines input)"
  using assms
proof (induction k arbitrary: input r)
  case 0
  then show ?case by (simp add: List.map_filter_simps)
next
  case (Suc k)
  obtain ol i1 where g: "getline input = (ol, i1)" by (cases "getline input") auto
  show ?case
  proof (cases ol)
    case None
    with g have "input_lines input = []" using input_lines_getline(1) by simp
    moreover from g None have "input_lines i1 = []" using getline_None_again by simp
    ultimately show ?thesis using g None by (simp add: List.map_filter_simps)
  next
    case (Some line)
    with g have il: "input_lines input = line # input_lines i1" using input_lines_getline(2) by simp
    from Suc.prems il have fit: "fits_int line"
      and rest: "\<forall>l \<in> set (take k (input_lines i1)). fits_int l" by simp_all
    show ?thesis
    proof (cases "rx_f line")
      case None
      then have "facet_of_line line = None" by (simp add: facet_of_line_def)
      moreover from Suc.IH [OF rest, of r] obtain i2 where
        "faces_ascii k i1 r = (Success, i2,
           r\<lparr>meshFacets := meshFacets r @ List.map_filter facet_of_line (take k (input_lines i1))\<rparr>)"
        "input_lines i2 = drop k (input_lines i1)"
        by blast
      ultimately show ?thesis using g Some None il by (simp add: List.map_filter_simps)
    next
      case (Some gs)
      obtain g1 g2 g3 where gs: "gs = (g1, g2, g3)" by (cases gs) auto
      from Some gs have m: "rx_f line = Some (g1, g2, g3)" by simp
      from fit m have b: "dec g1 < 2 ^ 31" "dec g2 < 2 ^ 31" "dec g3 < 2 ^ 31"
        by (simp_all add: fits_int_def)
      from rx_f_digits [OF m] b have c: "lexical_cast_int g1 = Some (int (dec g1))"
        "lexical_cast_int g2 = Some (int (dec g2))" "lexical_cast_int g3 = Some (int (dec g3))"
        by (simp_all add: lexical_cast_digits)
      have md: "int (dec g) mod 2 ^ 64 = int (dec g)" if "dec g < 2 ^ 31" for g
      proof -
        have "int (dec g) < 2 ^ 31" using that by (metis of_nat_less_iff of_nat_numeral of_nat_power)
        then have "int (dec g) < 2 ^ 64" by simp
        then show ?thesis by simp
      qed
      let ?r1 = "r\<lparr>meshFacets := meshFacets r @ [(dec g1, dec g2, dec g3)]\<rparr>"
      have f: "facet_of_line line = Some (dec g1, dec g2, dec g3)" using m by (simp add: facet_of_line_def)
      from Suc.IH [OF rest, of ?r1] obtain i2 where
        "faces_ascii k i1 ?r1 = (Success, i2,
           ?r1\<lparr>meshFacets := meshFacets ?r1 @ List.map_filter facet_of_line (take k (input_lines i1))\<rparr>)"
        "input_lines i2 = drop k (input_lines i1)"
        by blast
      then show ?thesis using g \<open>ol = Some line\<close> m c il f b
        by (simp add: List.map_filter_simps md)
    qed
  qed
qed

text \<open>
  A face line can match the pattern and still append no facet: the third token of
  \<^verbatim>\<open>3 0 1 4294967296\<close> does not fit an \<^verbatim>\<open>int\<close>, the cast throws, and the decoder is left
  by the exception with no facet appended.
\<close>

theorem ascii_face_index_overflow_counterexample:
  "rx_f ''3 0 1 4294967296'' = Some (''0'', ''1'', ''4294967296'')
   \<and> ReadFaces_ascii (stream_of (ply_lines [''3 0 1 4294967296'']))
        ((new_reader :: sym_float ReaderPLY)\<lparr>f_count := 1\<rparr>)
     = (Exception, stream_of [], new_reader\<lparr>f_count := 1\<rparr>)"
  by (simp add: ReadFaces_ascii_def new_reader_def ply_lines_def stream_defs ascii_defs Let_def)

text \<open>
  C3, amended. When every matched token of the face lines read fits an \<^verbatim>\<open>int\<close>, the ASCII
  face decoder succeeds, and the facets it appends are those of the lines, among the first
  \<open>f_count\<close> lines of the stream, that match the pattern, with the three tokens as
  indices: a line that does not match appends nothing and raises no error, and
  \<open>v_count\<close> plays no part.
\<close>

theorem ascii_faces_unchecked:
  assumes "\<forall>l \<in> set (take (f_count r) (input_lines input)). fits_int l"
  shows "\<exists>input'. ReadFaces_ascii input r
     = (Success, input',
        r\<lparr>meshFacets := meshFacets r @
            List.map_filter facet_of_line (take (f_count r) (input_lines input))\<rparr>)"
  using faces_ascii_facets [OF assms, of r] by (auto simp: ReadFaces_ascii_def)

text \<open>
  In a mesh of 3 vertices the lines \<^verbatim>\<open>3 0 1 2\<close>, \<^verbatim>\<open>4 0 1 2 3\<close> and \<^verbatim>\<open>3 5 6 7\<close> give
  the facets (0, 1, 2) and (5, 6, 7).
\<close>

theorem ascii_faces_unchecked_witness:
  "list_all fits_int
      (take 3 (input_lines (stream_of (ply_lines [''3 0 1 2'', ''4 0 1 2 3'', ''3 5 6 7'']))))
   \<and> List.map_filter facet_of_line
        (take 3 (input_lines (stream_of (ply_lines [''3 0 1 2'', ''4 0 1 2 3'', ''3 5 6 7'']))))
      = [(0, 1, 2), (5, 6, 7)]
   \<and> (\<exists>input'. ReadFaces_ascii (stream_of (ply_lines [''3 0 1 2'', ''4 0 1 2 3'', ''3 5 6 7'']))
         ((new_reader :: sym_float ReaderPLY)\<lparr>v_count := 3, f_count := 3\<rparr>)
       = (Success, input', new_reader\<lparr>v_count := 3, f_count := 3,
            meshFacets := [(0, 1, 2), (5, 6, 7)]\<rparr>))"
proof -
  let ?input = "stream_of (ply_lines [''3 0 1 2'', ''4 0 1 2 3'', ''3 5 6 7''])"
  let ?r = "(new_reader :: sym_float ReaderPLY)\<lparr>v_count := 3, f_count := 3\<rparr>"
  have il: "input_lines ?input = [''3 0 1 2'', ''4 0 1 2 3'', ''3 5 6 7'']"
    by (simp add: input_lines.simps ply_lines_def stream_defs Let_def)
  have h: "\<forall>l \<in> set (take (f_count ?r) (input_lines ?input)). fits_int l"
    unfolding il by (simp add: new_reader_def fits_int_def stream_defs ascii_defs Let_def)
  have f: "List.map_filter facet_of_line (take 3 (input_lines ?input)) = [(0, 1, 2), (5, 6, 7)]"
    unfolding il
    by (simp add: List.map_filter_simps facet_of_line_def stream_defs ascii_defs Let_def)
  from ascii_faces_unchecked [OF h] obtain input' where
    "ReadFaces_ascii ?input ?r = (Success, input',
        ?r\<lparr>meshFacets := meshFacets ?r @
            List.map_filter facet_of_line (take (f_count ?r) (input_lines ?input))\<rparr>)"
    by blast
  then have "ReadFaces_ascii ?input ?r
      = (Success, input', new_reader\<lparr>v_count := 3, f_count := 3, meshFacets := [(0, 1, 2), (5, 6, 7)]\<rparr>)"
    using f by (simp add: new_reader_def)
  moreover have "list_all fits_int (take 3 (input_lines ?input))"
    using h by (simp add: list_all_iff new_reader_def)
  ultimately show ?thesis using f by blast
qed


section \<open>Properties of the ASCII vertex decoder\<close>

lemma addVertexProperty_frame:
  "vertex_props (addVertexProperty F pv r) = vertex_props r"
  "handoffs (addVertexProperty F pv r) = handoffs r"
  "length (meshPoints (addVertexProperty F pv r)) = Suc (length (meshPoints r))"
  by (simp_all add: addVertexProperty_def Let_def split: option.splits)

lemma vertexes_ascii_lines:
  assumes "\<forall>l \<in> set (take k (input_lines input)).
             fst (vertex_line F (vertex_props r) l (\<lambda>_. f_zero F)) = Success"
  shows "\<exists>input' r'. vertexes_ascii F k input r = (Success, input', r')
           \<and> length (meshPoints r') = length (meshPoints r) + min k (length (input_lines input))
           \<and> input_lines input' = drop k (input_lines input)"
  using assms
proof (induction k arbitrary: input r)
  case 0
  then show ?case by simp
next
  case (Suc k)
  obtain ol i1 where g: "getline input = (ol, i1)" by (cases "getline input") auto
  show ?case
  proof (cases ol)
    case None
    with g have "input_lines input = []" using input_lines_getline(1) by simp
    moreover from g None have "input_lines i1 = []" using getline_None_again by simp
    ultimately show ?thesis using g None by simp
  next
    case (Some line)
    with g have il: "input_lines input = line # input_lines i1" using input_lines_getline(2) by simp
    obtain t pv where v: "vertex_line F (vertex_props r) line (\<lambda>_. f_zero F) = (t, pv)"
      by (cases "vertex_line F (vertex_props r) line (\<lambda>_. f_zero F)") auto
    from Suc.prems il v have t: "t = Success" by simp
    let ?r1 = "addVertexProperty F pv r"
    have rest: "\<forall>l \<in> set (take k (input_lines i1)).
             fst (vertex_line F (vertex_props ?r1) l (\<lambda>_. f_zero F)) = Success"
      using Suc.prems il by (simp add: addVertexProperty_frame)
    from Suc.IH [OF rest] obtain input' r' where
      "vertexes_ascii F k i1 ?r1 = (Success, input', r')"
      "length (meshPoints r') = length (meshPoints ?r1) + min k (length (input_lines i1))"
      "input_lines input' = drop k (input_lines i1)"
      by blast
    then show ?thesis using g Some v t il by (simp add: addVertexProperty_frame)
  qed
qed

lemma vertex_line_consume:
  assumes "consume F ps1 line = Some line'"
  shows "\<exists>pv'. vertex_line F (ps1 @ ps2) line pv = vertex_line F ps2 line' pv'"
  using assms
proof (induction ps1 arbitrary: line pv)
  case Nil
  then show ?case by auto
next
  case (Cons e ps1)
  obtain p k where e: "e = (p, k)" by (cases e) auto
  from Cons.prems e obtain g len v where m: "pattern k line = Some (g, len)"
    and c: "convert F k g = Some v" and rest: "consume F ps1 (drop len line) = Some line'"
    by (auto split: option.splits)
  from Cons.IH [OF rest, of "pv(p := v)"] obtain pv' where
    ih: "vertex_line F (ps1 @ ps2) (drop len line) (pv(p := v)) = vertex_line F ps2 line' pv'"
    by blast
  have "vertex_line F ((p, k) # ps1 @ ps2) line pv
      = vertex_line F (ps1 @ ps2) (drop len line) (pv(p := v))"
    using m c by (cases k) (auto simp: pattern_def convert_def split: option.splits)
  with ih e show ?case by auto
qed

lemma vertex_line_mismatch:
  "pattern k line = None \<Longrightarrow> vertex_line F ((p, k) # ps) line pv = (Failure, pv)"
  by (cases k) (simp_all add: pattern_def)

lemma vertexes_ascii_failure:
  assumes "input_lines input = pre @ line # post" and "length pre < k"
    and "\<forall>l \<in> set pre. fst (vertex_line F (vertex_props r) l (\<lambda>_. f_zero F)) = Success"
    and "fst (vertex_line F (vertex_props r) line (\<lambda>_. f_zero F)) = Failure"
  shows "\<exists>input' r'. vertexes_ascii F k input r = (Failure, input', r')
           \<and> handoffs r' = handoffs r"
  using assms
proof (induction pre arbitrary: k input r)
  case Nil
  from Nil.prems(2) obtain k' where k: "k = Suc k'" by (cases k) auto
  from Nil.prems(1) obtain i1 where g: "getline input = (Some line, i1)"
    using input_lines_Cons [of input line post] by auto
  obtain t pv where v: "vertex_line F (vertex_props r) line (\<lambda>_. f_zero F) = (t, pv)"
    by (cases "vertex_line F (vertex_props r) line (\<lambda>_. f_zero F)") auto
  with Nil.prems(4) have "t = Failure" by simp
  with g v k show ?case by simp
next
  case (Cons l pre)
  from Cons.prems(2) obtain k' where k: "k = Suc k'" and k': "length pre < k'" by (cases k) auto
  from Cons.prems(1) obtain i1 where g: "getline input = (Some l, i1)"
    and il: "input_lines i1 = pre @ line # post"
    using input_lines_Cons [of input l "pre @ line # post"] by auto
  obtain t pv where v: "vertex_line F (vertex_props r) l (\<lambda>_. f_zero F) = (t, pv)"
    by (cases "vertex_line F (vertex_props r) l (\<lambda>_. f_zero F)") auto
  with Cons.prems(3) have t: "t = Success" by simp
  let ?r1 = "addVertexProperty F pv r"
  have a: "\<forall>l \<in> set pre. fst (vertex_line F (vertex_props ?r1) l (\<lambda>_. f_zero F)) = Success"
    using Cons.prems(3) by (simp add: addVertexProperty_frame)
  have b: "fst (vertex_line F (vertex_props ?r1) line (\<lambda>_. f_zero F)) = Failure"
    using Cons.prems(4) by (simp add: addVertexProperty_frame)
  from Cons.IH [OF il k' a b] obtain input' r' where
    "vertexes_ascii F k' i1 ?r1 = (Failure, input', r')" "handoffs r' = handoffs ?r1"
    by blast
  then show ?case using g v t k by (simp add: addVertexProperty_frame)
qed

lemma Load_ascii_stage:
  assumes "CheckHeader inp = (True, i1)" and "ReadHeader L i1 [] r0 = (Success, input, r2)"
    and "VerifyVertexProperty r2" and "VerifyColorProperty r2 = (True, r)" and "format r = ascii"
  shows "Load F L inp r0 = LoadAscii F input r"
  using assms by (simp add: Load_def)

text \<open>
  C9. Let the first vertex line that does not decode be reached (the lines before it decode,
  and there are fewer of them than \<open>v_count\<close>) and let it fail at an entry of the vertex
  properties whose pattern does not match what the entries before it left of the line.
  Then the ASCII vertex decoder and \<open>LoadAscii\<close> return failure, \<open>CleanupMesh\<close> is not
  called (no handoff is recorded), and a \<open>Load\<close> that reaches this body returns failure.
\<close>

theorem ascii_vertex_mismatch_aborts:
  assumes "input_lines input = pre @ line # post" and "length pre < v_count r"
    and "\<forall>l \<in> set pre. fst (vertex_line F (vertex_props r) l (\<lambda>_. f_zero F)) = Success"
    and "vertex_props r = ps1 @ (p, k) # ps2"
    and "consume F ps1 line = Some line'" and "pattern k line' = None"
  shows "\<exists>input' r'. ReadVertexes_ascii F input r = (Failure, input', r')
           \<and> LoadAscii F input r = (Failure, input', r')
           \<and> handoffs r' = handoffs r
           \<and> (\<forall>inp i1 r0 r2. CheckHeader inp = (True, i1) \<and> ReadHeader L i1 [] r0 = (Success, input, r2)
                 \<and> VerifyVertexProperty r2 \<and> VerifyColorProperty r2 = (True, r) \<and> format r = ascii
               \<longrightarrow> Load F L inp r0 = (Failure, input', r'))"
proof -
  from vertex_line_consume [OF assms(5), of "(p, k) # ps2" "\<lambda>_. f_zero F"] obtain pv' where
    "vertex_line F (ps1 @ (p, k) # ps2) line (\<lambda>_. f_zero F) = vertex_line F ((p, k) # ps2) line' pv'"
    by blast
  then have f: "fst (vertex_line F (vertex_props r) line (\<lambda>_. f_zero F)) = Failure"
    using vertex_line_mismatch [OF assms(6), of F p ps2 pv'] assms(4) by simp
  from vertexes_ascii_failure [OF assms(1,2,3) f] obtain input' r' where
    v: "vertexes_ascii F (v_count r) input r = (Failure, input', r')" and h: "handoffs r' = handoffs r"
    by blast
  have rv: "ReadVertexes_ascii F input r = (Failure, input', r')"
    using v by (simp add: ReadVertexes_ascii_def)
  then have la: "LoadAscii F input r = (Failure, input', r')"
    by (simp add: LoadAscii_def)
  have "Load F L inp r0 = (Failure, input', r')"
    if "CheckHeader inp = (True, i1) \<and> ReadHeader L i1 [] r0 = (Success, input, r2)
         \<and> VerifyVertexProperty r2 \<and> VerifyColorProperty r2 = (True, r) \<and> format r = ascii"
    for inp i1 r0 r2
    using that Load_ascii_stage [of inp i1 L r0 input r2 r F] la by simp
  with rv la h show ?thesis by blast
qed


text \<open>
  A file with two vertices whose second line \<^verbatim>\<open>1 abc\<close> has no number for y: after x has
  taken \<^verbatim>\<open>1\<close> the decimal pattern does not match \<^verbatim>\<open>abc\<close>, and the load fails.
\<close>

theorem ascii_vertex_mismatch_aborts_witness:
  "CheckHeader (stream_of (ply_lines [''ply'', ''format ascii 1.0'', ''element vertex 2'',
       ''property float x'', ''property float y'', ''property float z'', ''end_header'',
       ''0 0 0'', ''1 abc'']))
     = (True, stream_of (ply_lines [''format ascii 1.0'', ''element vertex 2'',
       ''property float x'', ''property float y'', ''property float z'', ''end_header'',
       ''0 0 0'', ''1 abc'']))
   \<and> input_lines (stream_of (ply_lines [''0 0 0'', ''1 abc''])) = [''0 0 0''] @ ''1 abc'' # []
   \<and> consume sym_ops [(coord_x, float32)] ''1 abc'' = Some ''abc''
   \<and> pattern float32 ''abc'' = None
   \<and> fst (Load sym_ops test_limits (stream_of (ply_lines [''ply'', ''format ascii 1.0'', ''element vertex 2'',
       ''property float x'', ''property float y'', ''property float z'', ''end_header'',
       ''0 0 0'', ''1 abc''])) (new_reader :: sym_float ReaderPLY)) = Failure
   \<and> handoffs (snd (snd (Load sym_ops test_limits (stream_of (ply_lines [''ply'', ''format ascii 1.0'',
       ''element vertex 2'', ''property float x'', ''property float y'', ''property float z'',
       ''end_header'', ''0 0 0'', ''1 abc''])) (new_reader :: sym_float ReaderPLY)))) = []"
proof -
  let ?inp = "stream_of (ply_lines [''ply'', ''format ascii 1.0'', ''element vertex 2'',
       ''property float x'', ''property float y'', ''property float z'', ''end_header'',
       ''0 0 0'', ''1 abc''])"
  let ?i1 = "stream_of (ply_lines [''format ascii 1.0'', ''element vertex 2'',
       ''property float x'', ''property float y'', ''property float z'', ''end_header'',
       ''0 0 0'', ''1 abc''])"
  let ?input = "stream_of (ply_lines [''0 0 0'', ''1 abc''])"
  let ?r = "(new_reader :: sym_float ReaderPLY)\<lparr>format := ascii, v_count := 2,
         vertex_props := [(coord_x, float32), (coord_y, float32), (coord_z, float32)]\<rparr>"
  have h1: "CheckHeader ?inp = (True, ?i1)"
    by (simp add: stream_defs header_defs Let_def ply_lines_def)
  have h2: "ReadHeader test_limits ?i1 [] new_reader = (Success, ?input, ?r)"
    by (simp add: stream_defs header_defs Let_def new_reader_def ply_lines_def)
  have h3: "VerifyVertexProperty ?r"
    by (simp add: VerifyVertexProperty_def count_if_def PropertyComp_def new_reader_def)
  have h4: "VerifyColorProperty ?r = (True, ?r)"
    by (simp add: VerifyColorProperty_def count_if_def PropertyComp_def new_reader_def)
  have h5: "format ?r = ascii" by simp
  have il: "input_lines ?input = [''0 0 0''] @ ''1 abc'' # []"
    by (simp add: input_lines.simps ply_lines_def stream_defs Let_def)
  have pre: "length [''0 0 0''] < v_count ?r" by simp
  have ok: "\<forall>l \<in> set [''0 0 0''].
      fst (vertex_line sym_ops (vertex_props ?r) l (\<lambda>_. f_zero sym_ops)) = Success"
    by (simp add: new_reader_def stream_defs ascii_defs sym_ops_def Let_def)
  have vp: "vertex_props ?r = [(coord_x, float32)] @ (coord_y, float32) # [(coord_z, float32)]"
    by simp
  have co: "consume sym_ops [(coord_x, float32)] ''1 abc'' = Some ''abc''"
    by (simp add: pattern_def convert_def stream_defs ascii_defs sym_ops_def Let_def)
  have pa: "pattern float32 ''abc'' = None"
    by (simp add: pattern_def stream_defs ascii_defs Let_def)
  from ascii_vertex_mismatch_aborts [OF il pre ok vp co pa] obtain input' r' where
    la: "LoadAscii sym_ops ?input ?r = (Failure, input', r')" and ho: "handoffs r' = handoffs ?r"
    and ld: "\<forall>inp i1 r0 r2. CheckHeader inp = (True, i1) \<and> ReadHeader test_limits i1 [] r0 = (Success, ?input, r2)
                 \<and> VerifyVertexProperty r2 \<and> VerifyColorProperty r2 = (True, ?r) \<and> format ?r = ascii
               \<longrightarrow> Load sym_ops test_limits inp r0 = (Failure, input', r')"
    by blast
  from ld h1 h2 h3 h4 h5 have "Load sym_ops test_limits ?inp new_reader = (Failure, input', r')" by blast
  moreover have "handoffs ?r = []" by (simp add: new_reader_def)
  ultimately have "fst (Load sym_ops test_limits ?inp new_reader) = Failure"
    "handoffs (snd (snd (Load sym_ops test_limits ?inp new_reader))) = []"
    using ho by simp_all
  with h1 il co pa show ?thesis by blast
qed

lemma length_map_filter: "length (List.map_filter f xs) \<le> length xs"
  by (induction xs) (auto simp: List.map_filter_simps split: option.splits)

text \<open>
  C10. When the stream holds fewer lines than \<open>v_count\<close> and each of them decodes, the ASCII
  vertex decoder returns success with one point for each line and the stream exhausted.
  When the stream holds fewer lines than \<open>f_count\<close> (and every matched token fits an
  \<^verbatim>\<open>int\<close>), the ASCII face decoder returns success with the facets of the matching lines,
  no more than there are lines.
\<close>

theorem ascii_truncated_body_succeeds:
  "(length (input_lines input) < v_count r
      \<and> (\<forall>l \<in> set (input_lines input).
            fst (vertex_line F (vertex_props r) l (\<lambda>_. f_zero F)) = Success)
    \<longrightarrow> (\<exists>input' r'. ReadVertexes_ascii F input r = (Success, input', r')
           \<and> length (meshPoints r') = length (meshPoints r) + length (input_lines input)
           \<and> input_lines input' = []))
   \<and> (length (input_lines input) < f_count r \<and> (\<forall>l \<in> set (input_lines input). fits_int l)
    \<longrightarrow> (\<exists>input' r'. ReadFaces_ascii input r = (Success, input', r')
           \<and> meshFacets r' = meshFacets r @ List.map_filter facet_of_line (input_lines input)
           \<and> length (meshFacets r') \<le> length (meshFacets r) + length (input_lines input)
           \<and> input_lines input' = []))"
proof (intro conjI impI)
  assume a: "length (input_lines input) < v_count r
      \<and> (\<forall>l \<in> set (input_lines input).
            fst (vertex_line F (vertex_props r) l (\<lambda>_. f_zero F)) = Success)"
  then have "\<forall>l \<in> set (take (v_count r) (input_lines input)).
            fst (vertex_line F (vertex_props r) l (\<lambda>_. f_zero F)) = Success"
    by simp
  from vertexes_ascii_lines [OF this] a
  show "\<exists>input' r'. ReadVertexes_ascii F input r = (Success, input', r')
           \<and> length (meshPoints r') = length (meshPoints r) + length (input_lines input)
           \<and> input_lines input' = []"
    by (auto simp: ReadVertexes_ascii_def min_def)
next
  assume a: "length (input_lines input) < f_count r \<and> (\<forall>l \<in> set (input_lines input). fits_int l)"
  then have "\<forall>l \<in> set (take (f_count r) (input_lines input)). fits_int l" by simp
  from faces_ascii_facets [OF this, of r] obtain input' where
    f: "faces_ascii (f_count r) input r = (Success, input',
        r\<lparr>meshFacets := meshFacets r @
           List.map_filter facet_of_line (take (f_count r) (input_lines input))\<rparr>)"
    and d: "input_lines input' = drop (f_count r) (input_lines input)"
    by blast
  let ?r' = "r\<lparr>meshFacets := meshFacets r @ List.map_filter facet_of_line (input_lines input)\<rparr>"
  have "ReadFaces_ascii input r = (Success, input', ?r')"
    using f a by (simp add: ReadFaces_ascii_def)
  moreover have "meshFacets ?r' = meshFacets r @ List.map_filter facet_of_line (input_lines input)"
    by simp
  moreover have "length (meshFacets ?r') \<le> length (meshFacets r) + length (input_lines input)"
    using length_map_filter [of facet_of_line "input_lines input"] by simp
  moreover have "input_lines input' = []" using d a by simp
  ultimately show "\<exists>input' r'. ReadFaces_ascii input r = (Success, input', r')
           \<and> meshFacets r' = meshFacets r @ List.map_filter facet_of_line (input_lines input)
           \<and> length (meshFacets r') \<le> length (meshFacets r) + length (input_lines input)
           \<and> input_lines input' = []"
    by blast
qed


text \<open>Two vertex lines where three are declared, one face line where two are declared.\<close>

theorem ascii_truncated_body_succeeds_witness:
  "length (input_lines (stream_of (ply_lines [''0 0 0'', ''1 0 0''])))
     < v_count ((new_reader :: sym_float ReaderPLY)\<lparr>v_count := 3, f_count := 2,
         vertex_props := [(coord_x, float32), (coord_y, float32), (coord_z, float32)]\<rparr>)
   \<and> (\<exists>input' r'. ReadVertexes_ascii sym_ops (stream_of (ply_lines [''0 0 0'', ''1 0 0'']))
          ((new_reader :: sym_float ReaderPLY)\<lparr>v_count := 3, f_count := 2,
             vertex_props := [(coord_x, float32), (coord_y, float32), (coord_z, float32)]\<rparr>)
        = (Success, input', r') \<and> length (meshPoints r') = 2 \<and> input_lines input' = [])
   \<and> (\<exists>input' r'. ReadFaces_ascii (stream_of (ply_lines [''3 0 1 2'']))
          ((new_reader :: sym_float ReaderPLY)\<lparr>v_count := 3, f_count := 2,
             vertex_props := [(coord_x, float32), (coord_y, float32), (coord_z, float32)]\<rparr>)
        = (Success, input', r') \<and> meshFacets r' = [(0, 1, 2)] \<and> input_lines input' = [])"
proof -
  let ?r = "(new_reader :: sym_float ReaderPLY)\<lparr>v_count := 3, f_count := 2,
         vertex_props := [(coord_x, float32), (coord_y, float32), (coord_z, float32)]\<rparr>"
  let ?vs = "stream_of (ply_lines [''0 0 0'', ''1 0 0''])"
  let ?fs = "stream_of (ply_lines [''3 0 1 2''])"
  have vl: "input_lines ?vs = [''0 0 0'', ''1 0 0'']"
    by (simp add: input_lines.simps ply_lines_def stream_defs Let_def)
  have fl: "input_lines ?fs = [''3 0 1 2'']"
    by (simp add: input_lines.simps ply_lines_def stream_defs Let_def)
  have hv: "length (input_lines ?vs) < v_count ?r
      \<and> (\<forall>l \<in> set (input_lines ?vs).
            fst (vertex_line sym_ops (vertex_props ?r) l (\<lambda>_. f_zero sym_ops)) = Success)"
    unfolding vl by (simp add: new_reader_def stream_defs ascii_defs sym_ops_def Let_def)
  have hf: "length (input_lines ?fs) < f_count ?r \<and> (\<forall>l \<in> set (input_lines ?fs). fits_int l)"
    unfolding fl by (simp add: new_reader_def fits_int_def stream_defs ascii_defs Let_def)
  have mf: "List.map_filter facet_of_line (input_lines ?fs) = [(0, 1, 2)]"
    unfolding fl
    by (simp add: List.map_filter_simps facet_of_line_def stream_defs ascii_defs Let_def)
  have mp: "meshPoints ?r = []" "meshFacets ?r = []" by (simp_all add: new_reader_def)
  have lv: "length (input_lines ?vs) = 2" unfolding vl by simp
  from ascii_truncated_body_succeeds [where input = ?vs and r = ?r and F = sym_ops] hv
  have a: "\<exists>input' r'. ReadVertexes_ascii sym_ops ?vs ?r = (Success, input', r')
           \<and> length (meshPoints r') = length (meshPoints ?r) + length (input_lines ?vs)
           \<and> input_lines input' = []"
    by blast
  from ascii_truncated_body_succeeds [where input = ?fs and r = ?r and F = sym_ops] hf
  have b: "\<exists>input' r'. ReadFaces_ascii ?fs ?r = (Success, input', r')
           \<and> meshFacets r' = meshFacets ?r @ List.map_filter facet_of_line (input_lines ?fs)
           \<and> length (meshFacets r') \<le> length (meshFacets ?r) + length (input_lines ?fs)
           \<and> input_lines input' = []"
    by blast
  from a have a': "\<exists>input' r'. ReadVertexes_ascii sym_ops ?vs ?r = (Success, input', r')
        \<and> length (meshPoints r') = 2 \<and> input_lines input' = []"
    by (auto simp: mp lv)
  from b have b': "\<exists>input' r'. ReadFaces_ascii ?fs ?r = (Success, input', r')
        \<and> meshFacets r' = [(0, 1, 2)] \<and> input_lines input' = []"
    unfolding mp mf by auto
  from hv a' b' show ?thesis by blast
qed


section \<open>Properties of the header parser\<close>

lemma input_lines_Nil:
  assumes "input_lines s = []"
  shows "\<exists>s'. getline s = (None, s')"
proof -
  obtain ol s' where g: "getline s = (ol, s')" by (cases "getline s") auto
  with assms show ?thesis by (cases ol) (simp_all add: input_lines.simps [of s])
qed

lemma ReadHeader_run:
  assumes "header_run L (input_lines input) element r = Some (e', r')"
  shows "\<exists>input'. ReadHeader L input element r = (Success, input', r') \<and> input_lines input' = []"
  using assms
proof (induction "input_lines input" arbitrary: input element r)
  case Nil
  from Nil.hyps [symmetric] obtain s' where g: "getline input = (None, s')"
    using input_lines_Nil by blast
  from Nil.prems Nil.hyps [symmetric] have "r' = r" by simp
  moreover have "input_lines s' = []" using g by (rule getline_None_again)
  ultimately show ?case using g by (simp add: ReadHeader.simps [of L input])
next
  case (Cons l ls)
  from Cons.hyps(2) [symmetric] obtain i1 where g: "getline input = (Some l, i1)"
    and il: "input_lines i1 = ls"
    using input_lines_Cons [of input l ls] by auto
  obtain t e1 r1 where h: "header_line L l element r = (t, e1, r1)"
    by (cases "header_line L l element r") auto
  from Cons.prems Cons.hyps(2) [symmetric] h have t: "t = Continue"
    and run: "header_run L ls e1 r1 = Some (e', r')"
    by (cases t; simp)+
  from Cons.hyps(1) [OF il [symmetric]] run il obtain input' where
    "ReadHeader L i1 e1 r1 = (Success, input', r')" "input_lines input' = []"
    by auto
  then show ?case using g h t by (simp add: ReadHeader.simps [of L input])
qed

lemma ReadHeader_abort:
  assumes "input_lines input = pre @ l # post" and "header_run L pre e0 r0 = Some (e, r)"
    and "fst (header_line L l e r) = Abort"
  shows "fst (ReadHeader L input e0 r0) = Failure"
  using assms
proof (induction pre arbitrary: input e0 r0)
  case Nil
  from Nil.prems(1) obtain i1 where g: "getline input = (Some l, i1)"
    using input_lines_Cons [of input l post] by auto
  from Nil.prems(2) have "e0 = e" "r0 = r" by simp_all
  with Nil.prems(3) g show ?case
    by (cases "header_line L l e r") (simp add: ReadHeader.simps [of L input])
next
  case (Cons p pre)
  from Cons.prems(1) obtain i1 where g: "getline input = (Some p, i1)"
    and il: "input_lines i1 = pre @ l # post"
    using input_lines_Cons [of input p "pre @ l # post"] by auto
  obtain t e1 r1 where h: "header_line L p e0 r0 = (t, e1, r1)"
    by (cases "header_line L p e0 r0") auto
  from Cons.prems(2) h have t: "t = Continue" and run: "header_run L pre e1 r1 = Some (e, r)"
    by (cases t; simp)+
  from Cons.IH [OF il run Cons.prems(3)] show ?case
    using g h t by (simp add: ReadHeader.simps [of L input])
qed

lemma Load_header_abort:
  assumes "CheckHeader inp = (True, input)" and "fst (ReadHeader L input [] r0) = Failure"
  shows "fst (Load F L inp r0) = Failure"
  using assms by (cases "ReadHeader L input [] r0") (simp add: Load_def)

text \<open>
  A line that throws ends the header with the exception, which \<open>Load\<close> does not catch: an
  element line whose count is above what the vector can reserve is such a line, whatever
  follows it, and whether or not the header has a terminator.
\<close>

lemma ReadHeader_throw:
  assumes "input_lines input = pre @ l # post" and "header_run L pre e0 r0 = Some (e, r)"
    and "fst (header_line L l e r) = Throw"
  shows "fst (ReadHeader L input e0 r0) = Exception"
  using assms
proof (induction pre arbitrary: input e0 r0)
  case Nil
  from Nil.prems(1) obtain i1 where g: "getline input = (Some l, i1)"
    using input_lines_Cons [of input l post] by auto
  from Nil.prems(2) have "e0 = e" "r0 = r" by simp_all
  with Nil.prems(3) g show ?case
    by (cases "header_line L l e r") (simp add: ReadHeader.simps [of L input])
next
  case (Cons p pre)
  from Cons.prems(1) obtain i1 where g: "getline input = (Some p, i1)"
    and il: "input_lines i1 = pre @ l # post"
    using input_lines_Cons [of input p "pre @ l # post"] by auto
  obtain t e1 r1 where h: "header_line L p e0 r0 = (t, e1, r1)"
    by (cases "header_line L p e0 r0") auto
  from Cons.prems(2) h have t: "t = Continue" and run: "header_run L pre e1 r1 = Some (e, r)"
    by (cases t; simp)+
  from Cons.IH [OF il run Cons.prems(3)] show ?case
    using g h t by (simp add: ReadHeader.simps [of L input])
qed

lemma Load_header_throw:
  assumes "CheckHeader inp = (True, input)" and "fst (ReadHeader L input [] r0) = Exception"
  shows "fst (Load F L inp r0) = Exception"
  using assms by (cases "ReadHeader L input [] r0") (simp add: Load_def)

lemma element_count_above_limit:
  assumes "max_points L < 18446744073709551615"
  shows "header_line L ''element vertex -1'' element r
      = (Throw, ''vertex'', r\<lparr>v_count := 18446744073709551615\<rparr>)"
  using assms by (simp add: stream_defs header_line_def ReadElement_def Let_def)

lemma unterminated_header_throws:
  "fst (ReadHeader test_limits (stream_of (ply_lines [''format ascii 1.0'', ''element vertex -1'',
       ''property float x''])) [] (new_reader :: sym_float ReaderPLY)) = Exception"
  "fst (ReadHeader test_limits (stream_of (ply_lines [''element vertex 5000000000000000000'']))
       [] (new_reader :: sym_float ReaderPLY)) = Exception"
  "fst (Load sym_ops test_limits (stream_of (ply_lines [''ply'', ''element face 1000001'']))
       (new_reader :: sym_float ReaderPLY)) = Exception"
  by (simp_all add: Load_def stream_defs header_defs Let_def new_reader_def ply_lines_def)

text \<open>
  C8. When every line of the stream is a header line that is accepted, without an exception,
  and none is \<^verbatim>\<open>end_header\<close> (the run of all lines of the stream reaches a state),
  \<open>ReadHeader\<close> returns success with that state, at the end of the stream.
\<close>

theorem header_without_terminator:
  assumes "header_run L (input_lines input) element r = Some (e', r')"
  shows "\<exists>input'. ReadHeader L input element r = (Success, input', r') \<and> input_lines input' = []"
  using assms by (rule ReadHeader_run)


text \<open>A header of a format line, an element line and three property lines, and nothing else.\<close>

theorem header_without_terminator_witness:
  "header_run test_limits (input_lines (stream_of (ply_lines [''format ascii 1.0'', ''element vertex 3'',
       ''property float x'', ''property float y'', ''property float z''])))
     [] (new_reader :: sym_float ReaderPLY)
     = Some (''vertex'', new_reader\<lparr>format := ascii, v_count := 3,
         vertex_props := [(coord_x, float32), (coord_y, float32), (coord_z, float32)]\<rparr>)
   \<and> (\<exists>input'. ReadHeader test_limits (stream_of (ply_lines [''format ascii 1.0'', ''element vertex 3'',
       ''property float x'', ''property float y'', ''property float z'']))
        [] (new_reader :: sym_float ReaderPLY)
      = (Success, input', new_reader\<lparr>format := ascii, v_count := 3,
         vertex_props := [(coord_x, float32), (coord_y, float32), (coord_z, float32)]\<rparr>)
      \<and> input_lines input' = [])"
proof -
  let ?input = "stream_of (ply_lines [''format ascii 1.0'', ''element vertex 3'',
       ''property float x'', ''property float y'', ''property float z''])"
  let ?r = "(new_reader :: sym_float ReaderPLY)\<lparr>format := ascii, v_count := 3,
         vertex_props := [(coord_x, float32), (coord_y, float32), (coord_z, float32)]\<rparr>"
  have il: "input_lines ?input = [''format ascii 1.0'', ''element vertex 3'',
       ''property float x'', ''property float y'', ''property float z'']"
    by (simp add: input_lines.simps ply_lines_def stream_defs Let_def)
  have run: "header_run test_limits (input_lines ?input) [] new_reader = Some (''vertex'', ?r)"
    unfolding il by (simp add: stream_defs header_defs Let_def new_reader_def)
  from header_without_terminator [OF run] run show ?thesis by blast
qed

lemma takeWhile_run:
  "list_all P xs \<Longrightarrow> ys = [] \<or> \<not> P (hd ys) \<Longrightarrow> takeWhile P (xs @ ys) = xs"
proof (induction xs)
  case Nil
  then show ?case by (cases ys) auto
next
  case (Cons x xs)
  then show ?case by simp
qed

lemma dropWhile_run:
  "list_all P xs \<Longrightarrow> ys = [] \<or> \<not> P (hd ys) \<Longrightarrow> dropWhile P (xs @ ys) = ys"
proof (induction xs)
  case Nil
  then show ?case by (cases ys) auto
next
  case (Cons x xs)
  then show ?case by simp
qed

lemma get_string_token:
  assumes "is_token t" and "rest = [] \<or> is_space (hd rest)"
  shows "get_string old \<lparr>chars = t @ rest, failed = False\<rparr> = (t, \<lparr>chars = rest, failed = False\<rparr>)"
proof -
  have a: "list_all (\<lambda>c. \<not> is_space c) t" and ne: "t \<noteq> []" using assms(1) by (simp_all add: is_token_def)
  have b: "rest = [] \<or> \<not> (\<lambda>c. \<not> is_space c) (hd rest)" using assms(2) by simp
  have "takeWhile (\<lambda>c. \<not> is_space c) (t @ rest) = t" using takeWhile_run [OF a b] .
  moreover have "dropWhile (\<lambda>c. \<not> is_space c) (t @ rest) = rest" using dropWhile_run [OF a b] .
  ultimately show ?thesis using ne by (simp add: get_string_def Let_def)
qed

lemma get_separator:
  assumes "is_blank w" and "is_token t"
  shows "\<exists>c. is_space c \<and> skip_ws (snd (get_char old \<lparr>chars = w @ t @ rest, failed = False\<rparr>))
           = \<lparr>chars = t @ rest, failed = False\<rparr>
         \<and> fst (get_char old \<lparr>chars = w @ t @ rest, failed = False\<rparr>) = c"
proof -
  from assms(1) obtain c w' where w: "w = c # w'" and c: "is_space c" and w': "list_all is_space w'"
    by (cases w) (auto simp: is_blank_def)
  from assms(2) have "t @ rest = [] \<or> \<not> is_space (hd (t @ rest))"
    by (cases t) (auto simp: is_token_def)
  from dropWhile_run [OF w' this] have "dropWhile is_space (w' @ t @ rest) = t @ rest" .
  then show ?thesis using w c by (simp add: get_char_def skip_ws_def)
qed

lemma ReadFormat_tokens:
  assumes "is_blank sep1" and "is_token name" and "is_blank sep2" and "is_token ver"
    and "tail = [] \<or> is_space (hd tail)"
  shows "ReadFormat \<lparr>chars = sep1 @ name @ sep2 @ ver @ tail, failed = False\<rparr> r
       = (if mode_of name = unknown then (False, r) else (ver = ''1.0'', r\<lparr>format := mode_of name\<rparr>))"
proof -
  let ?s0 = "\<lparr>chars = sep1 @ name @ sep2 @ ver @ tail, failed = False\<rparr>"
  from get_separator [OF assms(1,2), of "CHR 0x00" "sep2 @ ver @ tail"] obtain c1 where
    c1: "is_space c1" "fst (get_char (CHR 0x00) ?s0) = c1"
    and s2: "skip_ws (snd (get_char (CHR 0x00) ?s0)) = \<lparr>chars = name @ sep2 @ ver @ tail, failed = False\<rparr>"
    by blast
  have sp2: "sep2 @ ver @ tail = [] \<or> is_space (hd (sep2 @ ver @ tail))"
    using assms(3) by (cases sep2) (auto simp: is_blank_def)
  have s3: "get_string [] \<lparr>chars = name @ sep2 @ ver @ tail, failed = False\<rparr>
      = (name, \<lparr>chars = sep2 @ ver @ tail, failed = False\<rparr>)"
    using get_string_token [OF assms(2) sp2] .
  let ?s3 = "\<lparr>chars = sep2 @ ver @ tail, failed = False\<rparr>"
  from get_separator [OF assms(3,4), of "CHR 0x00" tail] obtain c2 where
    c2: "is_space c2" "fst (get_char (CHR 0x00) ?s3) = c2"
    and s5: "skip_ws (snd (get_char (CHR 0x00) ?s3)) = \<lparr>chars = ver @ tail, failed = False\<rparr>"
    by blast
  have s6: "get_string [] \<lparr>chars = ver @ tail, failed = False\<rparr>
      = (ver, \<lparr>chars = tail, failed = False\<rparr>)"
    using get_string_token [OF assms(4,5)] .
  show ?thesis
    using c1 c2 s2 s3 s5 s6
    by (simp add: ReadFormat_def mode_of_def case_prod_beta)
qed

lemma format_kw: "is_token ''format''"
  by (simp add: is_token_def is_space_def)

lemma header_line_format:
  assumes "list_all is_space ws0" and "is_blank sep1" and "is_token name" and "is_blank sep2"
    and "is_token ver" and "tail = [] \<or> is_space (hd tail)"
  shows "header_line L (ws0 @ ''format'' @ sep1 @ name @ sep2 @ ver @ tail) element r
       = (if mode_of name \<noteq> unknown \<and> ver = ''1.0''
          then (Continue, element, r\<lparr>format := mode_of name\<rparr>)
          else (Abort, element, if mode_of name = unknown then r else r\<lparr>format := mode_of name\<rparr>))"
proof -
  let ?rest = "sep1 @ name @ sep2 @ ver @ tail"
  have "''format'' @ ?rest = [] \<or> \<not> is_space (hd (''format'' @ ?rest))"
    by (simp add: is_space_def)
  from dropWhile_run [OF assms(1) this]
  have d: "dropWhile is_space (ws0 @ ''format'' @ ?rest) = ''format'' @ ?rest" .
  have sp: "?rest = [] \<or> is_space (hd ?rest)"
    using assms(2) by (cases sep1) (auto simp: is_blank_def)
  have kw: "get_string [] \<lparr>chars = ''format'' @ ?rest, failed = False\<rparr>
      = (''format'', \<lparr>chars = ?rest, failed = False\<rparr>)"
    using get_string_token [OF format_kw sp] .
  have ne: "''format'' @ ?rest \<noteq> []" by simp
  have hl: "header_line L (ws0 @ ''format'' @ ?rest) element r
      = (case ReadFormat \<lparr>chars = ?rest, failed = False\<rparr> r of
           (False, r') \<Rightarrow> (Abort, element, r')
         | (True, r') \<Rightarrow> (Continue, element, r'))"
    unfolding header_line_def d Let_def
    using kw ne by (simp del: append.simps append_assoc)
  note rf = ReadFormat_tokens [OF assms(2-6), of r]
  show ?thesis unfolding hl rf by simp
qed


lemma mode_of_recognized:
  "mode_of name \<noteq> unknown \<longleftrightarrow>
     name = ''ascii'' \<or> name = ''binary_big_endian'' \<or> name = ''binary_little_endian''"
  by (simp add: mode_of_def)

lemma dropWhile_head: "dropWhile P xs = [] \<or> \<not> P (hd (dropWhile P xs))"
  by (induction xs) auto

lemma ReadFormat_accepted:
  assumes "fst (ReadFormat str r)"
  shows "\<exists>sep1 name sep2 tail. \<not> failed str \<and> chars str = sep1 @ name @ sep2 @ ''1.0'' @ tail
           \<and> is_blank sep1 \<and> is_token name \<and> is_blank sep2 \<and> (tail = [] \<or> is_space (hd tail))
           \<and> (name = ''ascii'' \<or> name = ''binary_big_endian'' \<or> name = ''binary_little_endian'')"
proof -
  have ns0: "\<not> is_space (CHR 0x00)" by (simp add: is_space_def)
  have nf: "\<not> failed str"
  proof
    assume "failed str"
    then show False using assms ns0
      by (simp add: ReadFormat_def get_char_def skip_ws_def get_string_def)
  qed
  obtain c1 cs where cs: "chars str = c1 # cs"
  proof (cases "chars str")
    case Nil
    then have False using assms ns0 nf
      by (simp add: ReadFormat_def get_char_def skip_ws_def get_string_def)
    then show ?thesis ..
  next
    case (Cons a list)
    then show ?thesis using that by blast
  qed
  define w1 where "w1 = takeWhile is_space cs"
  define r2 where "r2 = dropWhile is_space cs"
  define name where "name = takeWhile (\<lambda>c. \<not> is_space c) r2"
  define r3 where "r3 = dropWhile (\<lambda>c. \<not> is_space c) r2"
  have s2: "skip_ws (snd (get_char (CHR 0x00) str)) = str\<lparr>chars := r2\<rparr>"
    and c1: "fst (get_char (CHR 0x00) str) = c1"
    using nf cs by (simp_all add: get_char_def skip_ws_def r2_def)
  have name_ne: "name \<noteq> []"
  proof
    assume e: "name = []"
    have "get_string [] (str\<lparr>chars := r2\<rparr>) = ([], str\<lparr>chars := r2, failed := True\<rparr>)"
      using nf e by (simp add: get_string_def name_def)
    then show False using assms ns0 s2
      by (simp add: ReadFormat_def case_prod_beta get_char_def)
  qed
  have s3: "get_string [] (str\<lparr>chars := r2\<rparr>) = (name, str\<lparr>chars := r3\<rparr>)"
    using nf name_ne by (simp add: get_string_def name_def r3_def Let_def)
  obtain c2 cs2 where cs2: "r3 = c2 # cs2"
  proof (cases r3)
    case Nil
    then have "fst (get_char (CHR 0x00) (str\<lparr>chars := r3\<rparr>)) = CHR 0x00"
      using nf by (simp add: get_char_def)
    then have False using assms ns0 s2 s3 by (simp add: ReadFormat_def case_prod_beta)
    then show ?thesis ..
  next
    case (Cons a list)
    then show ?thesis using that by blast
  qed
  define w2 where "w2 = takeWhile is_space cs2"
  define r5 where "r5 = dropWhile is_space cs2"
  define ver where "ver = takeWhile (\<lambda>c. \<not> is_space c) r5"
  define tail where "tail = dropWhile (\<lambda>c. \<not> is_space c) r5"
  have s5: "skip_ws (snd (get_char (CHR 0x00) (str\<lparr>chars := r3\<rparr>))) = str\<lparr>chars := r5\<rparr>"
    and c2: "fst (get_char (CHR 0x00) (str\<lparr>chars := r3\<rparr>)) = c2"
    using nf cs2 by (simp_all add: get_char_def skip_ws_def r5_def)
  have s6: "fst (get_string [] (str\<lparr>chars := r5\<rparr>)) = ver"
    using nf by (simp add: get_string_def ver_def Let_def)
  have res: "is_space c1 \<and> is_space c2 \<and> ver = ''1.0''
      \<and> (name = ''ascii'' \<or> name = ''binary_big_endian'' \<or> name = ''binary_little_endian'')"
    using assms
    by (simp add: ReadFormat_def case_prod_beta Let_def s2 c1 s3 s5 c2 s6 split: if_splits)
  have e1: "cs = w1 @ r2" by (simp add: w1_def r2_def)
  have e2: "r2 = name @ r3" by (simp add: name_def r3_def)
  have e3: "cs2 = w2 @ r5" by (simp add: w2_def r5_def)
  have e4: "r5 = ver @ tail" by (simp add: ver_def tail_def)
  have decomp: "chars str = (c1 # w1) @ name @ (c2 # w2) @ ver @ tail"
    unfolding cs by (subst e1, subst e2, subst cs2, subst e3, subst e4) simp
  have b1: "is_blank (c1 # w1)" "is_blank (c2 # w2)"
    using res by (simp_all add: is_blank_def w1_def w2_def takeWhile_all)
  have tk: "is_token name"
    using name_ne by (simp add: is_token_def name_def takeWhile_all)
  have tl: "tail = [] \<or> is_space (hd tail)"
    using dropWhile_head [of "\<lambda>c. \<not> is_space c" r5] by (simp add: tail_def)
  from nf decomp b1 tk tl res show ?thesis by blast
qed


lemma header_line_format_kw:
  assumes "list_all is_space ws0" and "rest = [] \<or> is_space (hd rest)"
  shows "header_line L (ws0 @ ''format'' @ rest) element r
      = (case ReadFormat \<lparr>chars = rest, failed = False\<rparr> r of
           (False, r') \<Rightarrow> (Abort, element, r')
         | (True, r') \<Rightarrow> (Continue, element, r'))"
proof -
  have "''format'' @ rest = [] \<or> \<not> is_space (hd (''format'' @ rest))"
    by (simp add: is_space_def)
  from dropWhile_run [OF assms(1) this]
  have d: "dropWhile is_space (ws0 @ ''format'' @ rest) = ''format'' @ rest" .
  have kw: "get_string [] \<lparr>chars = ''format'' @ rest, failed = False\<rparr>
      = (''format'', \<lparr>chars = rest, failed = False\<rparr>)"
    using get_string_token [OF format_kw assms(2)] .
  have ne: "''format'' @ rest \<noteq> []" by simp
  show ?thesis
    unfolding header_line_def d Let_def
    using kw ne by (simp del: append.simps append_assoc)
qed

text \<open>
  C7. A header line made of the keyword \<^verbatim>\<open>format\<close>, a format-name token and a version
  token, separated by whitespace, is accepted when the name is one of \<^verbatim>\<open>ascii\<close>,
  \<^verbatim>\<open>binary_big_endian\<close>, \<^verbatim>\<open>binary_little_endian\<close> and the version is \<^verbatim>\<open>1.0\<close>, and then
  the format mode of the name is recorded; with another name or another version it is
  rejected. Conversely, whatever follows the keyword of a format line that is accepted
  consists of a separator, one of the three names, a separator and the version \<^verbatim>\<open>1.0\<close>.
  When the header parser reaches a rejected line, \<open>ReadHeader\<close> returns false and \<open>Load\<close>
  fails.
\<close>

theorem format_line_validation:
  "(list_all is_space ws0 \<and> is_blank sep1 \<and> is_token name \<and> is_blank sep2 \<and> is_token ver
      \<and> (tail = [] \<or> is_space (hd tail))
    \<longrightarrow> header_line L (ws0 @ ''format'' @ sep1 @ name @ sep2 @ ver @ tail) element r
       = (if (name = ''ascii'' \<or> name = ''binary_big_endian'' \<or> name = ''binary_little_endian'')
             \<and> ver = ''1.0''
          then (Continue, element, r\<lparr>format := mode_of name\<rparr>)
          else (Abort, element, if mode_of name = unknown then r else r\<lparr>format := mode_of name\<rparr>)))
   \<and> (list_all is_space ws0 \<and> (rest = [] \<or> is_space (hd rest))
      \<and> fst (header_line L (ws0 @ ''format'' @ rest) element r) = Continue
    \<longrightarrow> (\<exists>sep1 name sep2 tail. rest = sep1 @ name @ sep2 @ ''1.0'' @ tail
           \<and> is_blank sep1 \<and> is_token name \<and> is_blank sep2 \<and> (tail = [] \<or> is_space (hd tail))
           \<and> (name = ''ascii'' \<or> name = ''binary_big_endian'' \<or> name = ''binary_little_endian'')))
   \<and> (fst (header_line L line element r) = Abort
      \<and> input_lines input = pre @ line # post \<and> header_run L pre e0 r0 = Some (element, r)
    \<longrightarrow> fst (ReadHeader L input e0 r0) = Failure)
   \<and> (fst (header_line L line element r) = Abort
      \<and> input_lines input = pre @ line # post \<and> header_run L pre [] r0 = Some (element, r)
      \<and> CheckHeader inp = (True, input)
    \<longrightarrow> fst (Load F L inp r0) = Failure)"
proof (intro conjI impI)
  assume a: "list_all is_space ws0 \<and> is_blank sep1 \<and> is_token name \<and> is_blank sep2 \<and> is_token ver
      \<and> (tail = [] \<or> is_space (hd tail))"
  then have "header_line L (ws0 @ ''format'' @ sep1 @ name @ sep2 @ ver @ tail) element r
       = (if mode_of name \<noteq> unknown \<and> ver = ''1.0''
          then (Continue, element, r\<lparr>format := mode_of name\<rparr>)
          else (Abort, element, if mode_of name = unknown then r else r\<lparr>format := mode_of name\<rparr>))"
    by (intro header_line_format) simp_all
  then show "header_line L (ws0 @ ''format'' @ sep1 @ name @ sep2 @ ver @ tail) element r
       = (if (name = ''ascii'' \<or> name = ''binary_big_endian'' \<or> name = ''binary_little_endian'')
             \<and> ver = ''1.0''
          then (Continue, element, r\<lparr>format := mode_of name\<rparr>)
          else (Abort, element, if mode_of name = unknown then r else r\<lparr>format := mode_of name\<rparr>))"
    unfolding mode_of_recognized .
next
  assume a: "list_all is_space ws0 \<and> (rest = [] \<or> is_space (hd rest))
      \<and> fst (header_line L (ws0 @ ''format'' @ rest) element r) = Continue"
  then have "fst (case ReadFormat \<lparr>chars = rest, failed = False\<rparr> r of
           (False, r') \<Rightarrow> (Abort, element, r')
         | (True, r') \<Rightarrow> (Continue, element, r')) = Continue"
    using header_line_format_kw [of ws0 rest L element r] by simp
  then have "fst (ReadFormat \<lparr>chars = rest, failed = False\<rparr> r)"
    by (cases "ReadFormat \<lparr>chars = rest, failed = False\<rparr> r") (auto split: bool.splits)
  from ReadFormat_accepted [OF this]
  show "\<exists>sep1 name sep2 tail. rest = sep1 @ name @ sep2 @ ''1.0'' @ tail
           \<and> is_blank sep1 \<and> is_token name \<and> is_blank sep2 \<and> (tail = [] \<or> is_space (hd tail))
           \<and> (name = ''ascii'' \<or> name = ''binary_big_endian'' \<or> name = ''binary_little_endian'')"
    by simp
next
  assume "fst (header_line L line element r) = Abort
      \<and> input_lines input = pre @ line # post \<and> header_run L pre e0 r0 = Some (element, r)"
  then show "fst (ReadHeader L input e0 r0) = Failure"
    using ReadHeader_abort [of input pre line post L e0 r0 element r] by blast
next
  assume a: "fst (header_line L line element r) = Abort
      \<and> input_lines input = pre @ line # post \<and> header_run L pre [] r0 = Some (element, r)
      \<and> CheckHeader inp = (True, input)"
  then have "fst (ReadHeader L input [] r0) = Failure"
    using ReadHeader_abort [of input pre line post L "[]" r0 element r] by blast
  with a show "fst (Load F L inp r0) = Failure"
    using Load_header_abort [of inp input L r0 F] by blast
qed

text \<open>
  \<^verbatim>\<open>format ascii 1.1\<close> is rejected and the load of a file that starts with it fails;
  \<^verbatim>\<open>format binary_little_endian 1.0\<close> is accepted and recorded.
\<close>

theorem format_line_validation_witness:
  "header_line test_limits ''format ascii 1.1'' [] (new_reader :: sym_float ReaderPLY)
     = (Abort, [], new_reader\<lparr>format := ascii\<rparr>)
   \<and> CheckHeader (stream_of (ply_lines [''ply'', ''format ascii 1.1'', ''element vertex 1'']))
     = (True, stream_of (ply_lines [''format ascii 1.1'', ''element vertex 1'']))
   \<and> input_lines (stream_of (ply_lines [''format ascii 1.1'', ''element vertex 1'']))
     = [] @ ''format ascii 1.1'' # [''element vertex 1'']
   \<and> fst (ReadHeader test_limits (stream_of (ply_lines [''format ascii 1.1'', ''element vertex 1'']))
        [] (new_reader :: sym_float ReaderPLY)) = Failure
   \<and> fst (Load sym_ops test_limits (stream_of (ply_lines [''ply'', ''format ascii 1.1'', ''element vertex 1'']))
        (new_reader :: sym_float ReaderPLY)) = Failure
   \<and> header_line test_limits ''format binary_little_endian 1.0'' [] (new_reader :: sym_float ReaderPLY)
     = (Continue, [], new_reader\<lparr>format := binary_little_endian\<rparr>)
   \<and> (\<exists>sep1 name sep2 tail. '' binary_little_endian 1.0'' = sep1 @ name @ sep2 @ ''1.0'' @ tail
        \<and> is_blank sep1 \<and> is_token name \<and> is_blank sep2 \<and> (tail = [] \<or> is_space (hd tail))
        \<and> (name = ''ascii'' \<or> name = ''binary_big_endian'' \<or> name = ''binary_little_endian''))"
proof -
  let ?inp = "stream_of (ply_lines [''ply'', ''format ascii 1.1'', ''element vertex 1''])"
  let ?input = "stream_of (ply_lines [''format ascii 1.1'', ''element vertex 1''])"
  let ?r0 = "new_reader :: sym_float ReaderPLY"
  have sh1: "list_all is_space [] \<and> is_blank '' '' \<and> is_token ''ascii'' \<and> is_blank '' ''
      \<and> is_token ''1.1'' \<and> ([] = [] \<or> is_space (hd []))"
    by (simp add: is_blank_def is_token_def is_space_def)
  have sh2: "list_all is_space [] \<and> is_blank '' '' \<and> is_token ''binary_little_endian''
      \<and> is_blank '' '' \<and> is_token ''1.0'' \<and> ([] = [] \<or> is_space (hd []))"
    by (simp add: is_blank_def is_token_def is_space_def)
  have ch: "CheckHeader ?inp = (True, ?input)"
    by (simp add: stream_defs header_defs Let_def ply_lines_def)
  have il: "input_lines ?input = [] @ ''format ascii 1.1'' # [''element vertex 1'']"
    by (simp add: input_lines.simps ply_lines_def stream_defs Let_def)
  have run: "header_run test_limits [] [] ?r0 = Some ([], ?r0)" by simp
  note a = format_line_validation [where ?ws0.0 = "[]" and ?sep1.0 = "'' ''" and name = "''ascii''"
      and ?sep2.0 = "'' ''" and ver = "''1.1''" and tail = "[]" and element = "[]"
      and r = ?r0 and line = "''format ascii 1.1''" and input = ?input and pre = "[]"
      and post = "[''element vertex 1'']" and ?e0.0 = "[]" and ?r0.0 = ?r0 and inp = ?inp
      and F = sym_ops and L = test_limits]
  note b = format_line_validation [where ?ws0.0 = "[]" and ?sep1.0 = "'' ''"
      and name = "''binary_little_endian''" and ?sep2.0 = "'' ''" and ver = "''1.0''"
      and tail = "[]" and element = "[]" and r = ?r0 and rest = "'' binary_little_endian 1.0''"
      and L = test_limits]
  have a1: "header_line test_limits ''format ascii 1.1'' [] ?r0 = (Abort, [], ?r0\<lparr>format := ascii\<rparr>)"
    using mp [OF a [THEN conjunct1] sh1] by (simp add: mode_of_def)
  then have ab: "fst (header_line test_limits ''format ascii 1.1'' [] ?r0) = Abort" by simp
  have a2: "fst (ReadHeader test_limits ?input [] ?r0) = Failure"
    by (rule mp [OF a [THEN conjunct2, THEN conjunct2, THEN conjunct1]]) (intro conjI ab il run)
  have a3: "fst (Load sym_ops test_limits ?inp ?r0) = Failure"
    by (rule mp [OF a [THEN conjunct2, THEN conjunct2, THEN conjunct2]]) (intro conjI ab il run ch)
  have b1: "header_line test_limits ''format binary_little_endian 1.0'' [] ?r0
      = (Continue, [], ?r0\<lparr>format := binary_little_endian\<rparr>)"
    using mp [OF b [THEN conjunct1] sh2] by (simp add: mode_of_def)
  have b2: "list_all is_space [] \<and> ('' binary_little_endian 1.0'' = []
        \<or> is_space (hd '' binary_little_endian 1.0''))
      \<and> fst (header_line test_limits ([] @ ''format'' @ '' binary_little_endian 1.0'') [] ?r0) = Continue"
    using b1 by (simp add: is_space_def)
  have b3: "\<exists>sep1 name sep2 tail. '' binary_little_endian 1.0'' = sep1 @ name @ sep2 @ ''1.0'' @ tail
        \<and> is_blank sep1 \<and> is_token name \<and> is_blank sep2 \<and> (tail = [] \<or> is_space (hd tail))
        \<and> (name = ''ascii'' \<or> name = ''binary_big_endian'' \<or> name = ''binary_little_endian'')"
    by (rule mp [OF b [THEN conjunct2, THEN conjunct1] b2])
  show ?thesis by (intro conjI a1 ch il a2 a3 b1 b3)
qed


section \<open>The end-to-end scenario\<close>

text \<open>
  The ASCII file of section 8 of the specification, with three vertices and one triangle,
  loads as three points and the facet (0, 1, 2), handed over once.
\<close>

lemma end_to_end_scenario:
  "Load sym_ops test_limits
     (stream_of (ply_lines [''ply'', ''format ascii 1.0'', ''element vertex 3'',
        ''property float x'', ''property float y'', ''property float z'', ''element face 1'',
        ''property list uchar int vertex_indices'', ''end_header'',
        ''0 0 0'', ''1 0 0'', ''0 1 0'', ''3 0 1 2'']))
     new_reader
   = (Success, stream_of [],
      \<lparr>format = ascii, v_count = 3, f_count = 1,
       vertex_props = [(coord_x, float32), (coord_y, float32), (coord_z, float32)],
       face_props = [],
       meshPoints = [(FText ''0'', FText ''0'', FText ''0''), (FText ''1'', FText ''0'', FText ''0''),
                     (FText ''0'', FText ''1'', FText ''0'')],
       meshFacets = [(0, 1, 2)], material = None,
       handoffs = [([(FText ''0'', FText ''0'', FText ''0''), (FText ''1'', FText ''0'', FText ''0''),
                     (FText ''0'', FText ''1'', FText ''0'')], [(0, 1, 2)])]\<rparr>)"
proof -
  let ?body = "stream_of (ply_lines [''0 0 0'', ''1 0 0'', ''0 1 0'', ''3 0 1 2''])"
  let ?r = "\<lparr>format = ascii, v_count = 3, f_count = 1,
       vertex_props = [(coord_x, float32), (coord_y, float32), (coord_z, float32)],
       face_props = [], meshPoints = [], meshFacets = [], material = None,
       handoffs = []\<rparr> :: sym_float ReaderPLY"
  let ?pts = "[(FText ''0'', FText ''0'', FText ''0''), (FText ''1'', FText ''0'', FText ''0''),
                     (FText ''0'', FText ''1'', FText ''0'')]"
  have h1: "CheckHeader (stream_of (ply_lines [''ply'', ''format ascii 1.0'', ''element vertex 3'',
        ''property float x'', ''property float y'', ''property float z'', ''element face 1'',
        ''property list uchar int vertex_indices'', ''end_header'',
        ''0 0 0'', ''1 0 0'', ''0 1 0'', ''3 0 1 2'']))
      = (True, stream_of (ply_lines [''format ascii 1.0'', ''element vertex 3'',
        ''property float x'', ''property float y'', ''property float z'', ''element face 1'',
        ''property list uchar int vertex_indices'', ''end_header'',
        ''0 0 0'', ''1 0 0'', ''0 1 0'', ''3 0 1 2'']))"
    by (simp add: stream_defs header_defs Let_def ply_lines_def)
  have h2: "ReadHeader test_limits (stream_of (ply_lines [''format ascii 1.0'', ''element vertex 3'',
        ''property float x'', ''property float y'', ''property float z'', ''element face 1'',
        ''property list uchar int vertex_indices'', ''end_header'',
        ''0 0 0'', ''1 0 0'', ''0 1 0'', ''3 0 1 2''])) [] new_reader = (Success, ?body, ?r)"
    by (simp add: stream_defs header_defs Let_def new_reader_def ply_lines_def)
  have h3: "VerifyVertexProperty ?r" "VerifyColorProperty ?r = (True, ?r)"
    by (simp_all add: VerifyVertexProperty_def VerifyColorProperty_def count_if_def PropertyComp_def)
  have v: "vertexes_ascii sym_ops (Suc (Suc (Suc 0))) ?body ?r
      = (Success, stream_of (ply_lines [''3 0 1 2'']), ?r\<lparr>meshPoints := ?pts\<rparr>)"
    by (simp add: addVertexProperty_def ply_lines_def sym_ops_def stream_defs ascii_defs Let_def)
  have f: "faces_ascii (Suc 0) (stream_of (ply_lines [''3 0 1 2''])) (?r\<lparr>meshPoints := ?pts\<rparr>)
      = (Success, stream_of [], ?r\<lparr>meshPoints := ?pts, meshFacets := [(0, 1, 2)]\<rparr>)"
    by (simp add: ply_lines_def stream_defs ascii_defs Let_def)
  have three: "(3 :: nat) = Suc (Suc (Suc 0))" by simp
  have la: "LoadAscii sym_ops ?body ?r
      = (Success, stream_of [], CleanupMesh (?r\<lparr>meshPoints := ?pts, meshFacets := [(0, 1, 2)]\<rparr>))"
    unfolding LoadAscii_def ReadVertexes_ascii_def ReadFaces_ascii_def
    using v f by (simp add: three)
  show ?thesis
    unfolding Load_def h1 using h2 h3 la by (simp add: CleanupMesh_def)
qed


end
